theory Spec2Isabelle
  imports Main "HOL-Library.Sublist"
begin

section \<open>Python strings\<close>

text \<open>
  The scripts work on Python \<open>str\<close> values.  They are modelled as \<^typ>\<open>string\<close>
  over ASCII text: \<open>lower()\<close> changes the letters \<open>A\<close>..\<open>Z\<close> only, and the white
  space of \<open>str.split\<close>, \<open>str.strip\<close> and the regular expression class \<open>\s\<close> is
  the ASCII white space of Python (codes 9 to 13 and 28 to 32).
\<close>

definition char_lower :: "char \<Rightarrow> char" where
  "char_lower c =
     (let n = (of_char c :: nat) in if 65 \<le> n \<and> n \<le> 90 then char_of (n + 32) else c)"

definition lower :: "string \<Rightarrow> string" where
  "lower s = map char_lower s"

definition is_space :: "char \<Rightarrow> bool" where
  "is_space c = (let n = (of_char c :: nat) in (9 \<le> n \<and> n \<le> 13) \<or> (28 \<le> n \<and> n \<le> 32))"

text \<open>\<open>sub in s\<close>: the text \<open>sub\<close> occurs in \<open>s\<close>.\<close>

fun contains :: "string \<Rightarrow> string \<Rightarrow> bool" where
  "contains sub [] = (sub = [])"
| "contains sub (c # cs) = (prefix sub (c # cs) \<or> contains sub cs)"

definition endswith :: "string \<Rightarrow> string \<Rightarrow> bool" where
  "endswith s suf = suffix suf s"

text \<open>
  \<open>s.replace(old, new)\<close> for a non-empty \<open>old\<close>: the occurrences are replaced from
  the left, without overlap.  The number of characters still to read bounds the
  recursion.
\<close>

fun replace_from :: "nat \<Rightarrow> string \<Rightarrow> string \<Rightarrow> string \<Rightarrow> string" where
  "replace_from 0 old new s = s"
| "replace_from (Suc k) old new [] = []"
| "replace_from (Suc k) old new (c # cs) =
     (if prefix old (c # cs) then new @ replace_from k old new (drop (length old) (c # cs))
      else c # replace_from k old new cs)"

definition replace :: "string \<Rightarrow> string \<Rightarrow> string \<Rightarrow> string" where
  "replace s old new = replace_from (length s) old new s"

text \<open>\<open>s.split()\<close>: the maximal runs of characters that are not white space.\<close>

fun split_from :: "string \<Rightarrow> string \<Rightarrow> string list" where
  "split_from w [] = (if w = [] then [] else [w])"
| "split_from w (c # cs) =
     (if is_space c then (if w = [] then split_from [] cs else w # split_from [] cs)
      else split_from (w @ [c]) cs)"

definition split :: "string \<Rightarrow> string list" where
  "split s = split_from [] s"

text \<open>\<open>" ".join(ws)\<close>.\<close>

fun join :: "string list \<Rightarrow> string" where
  "join [] = []"
| "join [w] = w"
| "join (w # v # ws) = w @ '' '' @ join (v # ws)"

text \<open>\<open>s.strip()\<close>.\<close>

definition strip :: "string \<Rightarrow> string" where
  "strip s = rev (dropWhile is_space (rev (dropWhile is_space s)))"

section \<open>Text normalizer and fuzzy matcher (step5_analysis.py)\<close>

text \<open>
  \<open>normalize_text\<close> starts with \<open>str(text)\<close>, so it accepts any value.  The values
  that reach it are texts; \<open>None\<close> and the missing value \<open>nan\<close> of a table cell are
  kept to show what \<open>str\<close> makes of them.
\<close>

datatype pyval = PyNone | PyNaN | PyStr string

fun py_str :: "pyval \<Rightarrow> string" where
  "py_str PyNone = ''None''"
| "py_str PyNaN = ''nan''"
| "py_str (PyStr s) = s"

text \<open>The substitution \<open>re.sub(r'[^a-z0-9\s]', ' ', text)\<close>, character by character.\<close>

definition is_lower_alnum :: "char \<Rightarrow> bool" where
  "is_lower_alnum c =
     (let n = (of_char c :: nat) in (97 \<le> n \<and> n \<le> 122) \<or> (48 \<le> n \<and> n \<le> 57))"

definition sub_non_alnum :: "string \<Rightarrow> string" where
  "sub_non_alnum s = map (\<lambda>c. if is_lower_alnum c \<or> is_space c then c else CHR '' '') s"

definition normalize_text :: "pyval \<Rightarrow> string" where
  "normalize_text text =
     join (split (sub_non_alnum (replace (lower (py_str text)) ''.pdf'' '''')))"

text \<open>
  \<open>fuzz.token_set_ratio\<close> belongs to the library \<open>thefuzz\<close>; it is a parameter
  \<open>ratio\<close> of the matcher, applied to the two normalized texts.
\<close>

type_synonym ratio = "string \<Rightarrow> string \<Rightarrow> int"

text \<open>The loop of \<open>find_best_local_match\<close>, with \<open>best_file\<close> and \<open>best_score\<close> as state.\<close>

fun best_loop :: "ratio \<Rightarrow> string \<Rightarrow> string list \<Rightarrow> string option \<times> int \<Rightarrow> string option \<times> int" where
  "best_loop ratio clean_cit [] best = best"
| "best_loop ratio clean_cit (fname # rest) (best_file, best_score) =
     (let clean_file = normalize_text (PyStr fname);
          score = ratio clean_cit clean_file
      in if score > best_score then best_loop ratio clean_cit rest (Some fname, score)
         else best_loop ratio clean_cit rest (best_file, best_score))"

definition find_best_local_match :: "ratio \<Rightarrow> string \<Rightarrow> string list \<Rightarrow> string option \<times> int" where
  "find_best_local_match ratio citation local_files =
     best_loop ratio (normalize_text (PyStr citation)) local_files (None, - 1)"

section \<open>One classification task (step5_analysis.py, analyze_single_paper)\<close>

text \<open>
  An exception is the value \<open>Inl msg\<close>, where \<open>msg\<close> is its description \<open>str(e)\<close>.
  The state of an uploaded file is the name \<open>gemini_file.state.name\<close>; the task
  tests it for \<open>PROCESSING\<close> and \<open>FAILED\<close>, every other name is \<open>ACTIVE\<close> here.
\<close>

datatype fstate = PROCESSING | FAILED | ACTIVE

text \<open>
  The value of \<open>json.loads\<close>: a JSON object, as the list of its entries, or a value of
  another kind, on which \<open>data.get\<close> raises \<open>AttributeError\<close> with the given
  description.  The entries' values are kept as the text a cell of the table holds.
\<close>

datatype json_doc = JObject "(string \<times> string) list" | JOther string

text \<open>\<open>data.get(key, default)\<close> on a dictionary.\<close>

definition dict_get :: "(string \<times> string) list \<Rightarrow> string \<Rightarrow> string \<Rightarrow> string" where
  "dict_get kv key dflt = (case map_of kv key of Some v \<Rightarrow> v | None \<Rightarrow> dflt)"

text \<open>
  What the file system and the service do during one task: \<open>shutil.copy2\<close> (\<open>Some\<close>
  is the exception it raises), \<open>client.files.upload\<close>, the successive calls of
  \<open>client.files.get\<close>, \<open>generate_content\<close> with the text of its response, and
  \<open>json.loads\<close>.  Deleting the uploaded file and the temporary copy is best effort
  (their exceptions are swallowed) and does not change the result.
\<close>

record world =
  copy2 :: "string option"
  upload :: "string + fstate"
  files_get :: "nat \<Rightarrow> string + fstate"
  generate_content :: "string + string"
  json_loads :: "string \<Rightarrow> string + json_doc"

text \<open>
  The loop \<open>while gemini_file.state.name == "PROCESSING"\<close>.  Nothing bounds it:
  the result is \<open>None\<close> when it runs forever.  \<open>k\<close> counts the calls of
  \<open>client.files.get\<close> made so far and is returned with the state that ends the loop.
\<close>

partial_function (option) wait_ready ::
  "(nat \<Rightarrow> string + fstate) \<Rightarrow> fstate \<Rightarrow> nat \<Rightarrow> ((string + fstate) \<times> nat) option" where
  "wait_ready get st k =
     (if st = PROCESSING then
        (case get k of
           Inl e \<Rightarrow> Some (Inl e, Suc k)
         | Inr st' \<Rightarrow> wait_ready get st' (Suc k))
      else Some (Inr st, k))"

declare wait_ready.simps [code]

text \<open>The result \<open>(row_idx, method, reason)\<close> of a task, \<open>None\<close> when it never returns.\<close>

definition analyze_single_paper :: "world \<Rightarrow> nat \<Rightarrow> string \<Rightarrow> (nat \<times> string \<times> string) option" where
  "analyze_single_paper w row_idx filename =
     (case copy2 w of
        Some e \<Rightarrow> Some (row_idx, ''Error'', e)
      | None \<Rightarrow>
     (case upload w of
        Inl e \<Rightarrow> Some (row_idx, ''Error'', e)
      | Inr st \<Rightarrow>
     (case wait_ready (files_get w) st 0 of
        None \<Rightarrow> None
      | Some (Inl e, k) \<Rightarrow> Some (row_idx, ''Error'', e)
      | Some (Inr st', k) \<Rightarrow>
          if st' = FAILED then Some (row_idx, ''Error'', ''File processing failed'')
          else
     (case generate_content w of
        Inl e \<Rightarrow> Some (row_idx, ''Error'', e)
      | Inr text \<Rightarrow>
     (let clean_json = strip (replace (replace text ''```json'' '''') ''```'' '''') in
      case json_loads w clean_json of
        Inl e \<Rightarrow> Some (row_idx, ''Error'', e)
      | Inr (JOther e) \<Rightarrow> Some (row_idx, ''Error'', e)
      | Inr (JObject data) \<Rightarrow>
          Some (row_idx, dict_get data ''methodology'' ''Unknown'', dict_get data ''reason'' ''''))))))"

section \<open>The concurrent item analyzer (step5_analysis.py, run_fast_pipeline)\<close>

text \<open>
  A row of the table: the columns the stage reads, as the texts \<open>str(row.get(...))\<close>
  gives, and the other columns, which it never touches.  The index of a row is its
  position (\<open>read_csv\<close> numbers the rows from 0).
\<close>

record row =
  Full_Citation :: string
  Link :: string
  Method :: string
  Other_Columns :: "string list"

type_synonym task = "nat \<times> string"

text \<open>
  The body of the loop over the rows: the file to analyse for this row, if any.
  \<open>find_best_local_match\<close> gives no file only with the score \<open>-1\<close>.
\<close>

definition match_row :: "ratio \<Rightarrow> string list \<Rightarrow> row \<Rightarrow> string option" where
  "match_row ratio local_pdfs r =
     (let citation = Full_Citation r; link_status = Link r; existing_method = Method r in
      if existing_method \<notin> set [''nan'', '''', ''None'', ''Unknown''] then None
      else if citation = [] \<or> contains ''---'' citation \<or> contains ''Online Link Only'' link_status
      then None
      else (case find_best_local_match ratio citation local_pdfs of
              (Some matched_file, score) \<Rightarrow> if score > 85 then Some matched_file else None
            | (None, score) \<Rightarrow> None))"

fun match_rows :: "ratio \<Rightarrow> string list \<Rightarrow> nat \<Rightarrow> row list \<Rightarrow> task list" where
  "match_rows ratio local_pdfs index [] = []"
| "match_rows ratio local_pdfs index (r # rs) =
     (case match_row ratio local_pdfs r of
        Some matched_file \<Rightarrow> (index, matched_file) # match_rows ratio local_pdfs (Suc index) rs
      | None \<Rightarrow> match_rows ratio local_pdfs (Suc index) rs)"

text \<open>
  The completions: each result is written to the column \<open>Method\<close> of its row and the
  whole table is saved.  The tasks write different rows (\<open>match_rows_distinct\<close>),
  and two completions give the same table in either order (\<open>merge_results_swap\<close>),
  so the table after the last completion does not depend on the order of completion;
  the model takes the order of submission.  \<open>env\<close> gives what the file system and
  the service do for each task.
\<close>

type_synonym env = "nat \<Rightarrow> string \<Rightarrow> world"

definition set_method :: "row list \<Rightarrow> nat \<Rightarrow> string \<Rightarrow> row list" where
  "set_method df row_idx m = df[row_idx := (df ! row_idx)\<lparr>Method := m\<rparr>]"

fun merge_results :: "env \<Rightarrow> task list \<Rightarrow> row list \<Rightarrow> row list option" where
  "merge_results env [] df = Some df"
| "merge_results env ((i, fname) # ts) df =
     (case analyze_single_paper (env i fname) i fname of
        None \<Rightarrow> None
      | Some (row_idx, m, reason) \<Rightarrow> merge_results env ts (set_method df row_idx m))"

text \<open>
  The files of a run: the input table, the output table (\<open>None\<close> when it does not
  exist yet) and the listing of the folder of documents (\<open>None\<close> when the folder is
  missing).  A run gives the output table it leaves and the tasks it queued; it gives
  \<open>None\<close> when a task never returns.
\<close>

record files =
  in_csv :: "row list option"
  out_csv :: "row list option"
  pdf_dir :: "string list option"

record outcome =
  saved :: "row list option"
  queued :: "task list"

definition local_pdfs_of :: "string list \<Rightarrow> string list" where
  "local_pdfs_of listing = filter (\<lambda>f. endswith (lower f) ''.pdf'') listing"

definition analyze_table :: "ratio \<Rightarrow> env \<Rightarrow> string list option \<Rightarrow> row list \<Rightarrow> outcome option" where
  "analyze_table ratio env dir df =
     (case dir of
        None \<Rightarrow> Some \<lparr>saved = Some df, queued = []\<rparr>
      | Some listing \<Rightarrow>
          (let tasks = match_rows ratio (local_pdfs_of listing) 0 df in
           if tasks = [] then Some \<lparr>saved = Some df, queued = []\<rparr>
           else (case merge_results env tasks df of
                   None \<Rightarrow> None
                 | Some df' \<Rightarrow> Some \<lparr>saved = Some df', queued = tasks\<rparr>)))"

definition run_fast_pipeline :: "ratio \<Rightarrow> env \<Rightarrow> files \<Rightarrow> outcome option" where
  "run_fast_pipeline ratio env fs =
     (case out_csv fs of
        Some df \<Rightarrow> analyze_table ratio env (pdf_dir fs) df
      | None \<Rightarrow>
          (case in_csv fs of
             None \<Rightarrow> Some \<lparr>saved = None, queued = []\<rparr>
           | Some df \<Rightarrow> analyze_table ratio env (pdf_dir fs) df))"

section \<open>The batch classifier (step2_relevancy_filter.py)\<close>

text \<open>
  A row of the table of papers: the columns the script reads (\<open>Abstract\<close> as the text
  \<open>str(...)\<close> gives, \<open>DOI\<close> with \<open>None\<close> for a missing value), the three columns it
  adds (\<open>Temp_ID\<close>, \<open>Included\<close>, \<open>Rejection_Reason\<close>) and the other columns.
\<close>

record paper =
  Temp_ID :: nat
  Title :: string
  Abstract :: string
  DOI :: "string option"
  Included :: bool
  Rejection_Reason :: string
  Paper_Columns :: "string list"

definition MIN_ABSTRACT_LENGTH :: nat where
  "MIN_ABSTRACT_LENGTH = 50"

definition REQUIRE_DOI :: bool where
  "REQUIRE_DOI = False"

definition BATCH_SIZE :: nat where
  "BATCH_SIZE = 20"

definition bad_phrases :: "string list" where
  "bad_phrases = [''no abstract'', ''abstract available'', ''see full text'']"

definition pre_flight_check :: "paper \<Rightarrow> bool \<times> string" where
  "pre_flight_check p =
     (let abstract = Abstract p in
      if length abstract < MIN_ABSTRACT_LENGTH then (False, ''Abstract too short'')
      else if list_ex (\<lambda>phrase. contains phrase (lower abstract)) bad_phrases
      then (False, ''Placeholder text'')
      else if REQUIRE_DOI \<and> DOI p = None then (False, ''Missing DOI'')
      else (True, ''Passed''))"

text \<open>
  A paper as the prompt of a batch lists it: \<open>ID\<close>, \<open>Title\<close> and the first 2000
  characters of \<open>Abstract\<close>.
\<close>

type_synonym mini = "nat \<times> string \<times> string"

definition to_mini :: "paper \<Rightarrow> mini" where
  "to_mini p = (Temp_ID p, Title p, take 2000 (Abstract p))"

text \<open>
  A decision of the response: the entries \<open>ID\<close>, \<open>Included\<close> and \<open>Reason\<close> of a JSON
  object, each \<open>None\<close> when the key is missing.  An \<open>ID\<close> that is no row number is
  \<open>None\<close> too: it is a key of \<open>results_map\<close> that no row looks up.
\<close>

record decision =
  dec_ID :: "nat option"
  dec_Included :: "bool option"
  dec_Reason :: "string option"

text \<open>
  The service and the parser: \<open>models_generate_content n batch\<close> is what the call
  number \<open>n\<close> of the run (counted from 0) does on the prompt of \<open>batch\<close>, an exception
  \<open>Inl msg\<close> or a response text; \<open>loads\<close> is \<open>json.loads\<close>.
\<close>

record client =
  models_generate_content :: "nat \<Rightarrow> mini list \<Rightarrow> string + string"
  loads :: "string \<Rightarrow> string + decision list"

text \<open>The body of the \<open>try\<close> of \<open>screen_batch\<close>: one attempt.\<close>

definition attempt :: "client \<Rightarrow> nat \<Rightarrow> mini list \<Rightarrow> string + decision list" where
  "attempt cl n batch =
     (case models_generate_content cl n batch of
        Inl e \<Rightarrow> Inl e
      | Inr text \<Rightarrow> loads cl (strip (replace (replace text ''```json'' '''') ''```'' '''')))"

text \<open>The test of the handler: the description of the exception names a rate limit.\<close>

definition rate_limited :: "string \<Rightarrow> bool" where
  "rate_limited error_msg = (contains ''429'' error_msg \<or> contains ''RESOURCE_EXHAUSTED'' error_msg)"

text \<open>What the run does to the outside, in order: calls of the service and pauses.\<close>

datatype event = Call "mini list" | Sleep nat

text \<open>
  The loop \<open>for attempt in range(3)\<close>, on the number of attempts left.  The result is
  the list \<open>screen_batch\<close> returns, the number of calls made so far and the events.
\<close>

fun attempts :: "client \<Rightarrow> mini list \<Rightarrow> nat \<Rightarrow> nat \<Rightarrow> decision list \<times> nat \<times> event list" where
  "attempts cl batch 0 n = ([], n, [])"
| "attempts cl batch (Suc left) n =
     (case attempt cl n batch of
        Inr decisions \<Rightarrow> (decisions, Suc n, [Call batch])
      | Inl error_msg \<Rightarrow>
          if rate_limited error_msg then
            (case attempts cl batch left (Suc n) of
               (decisions, n', evs) \<Rightarrow> (decisions, n', Call batch # Sleep 10 # evs))
          else ([], Suc n, [Call batch]))"

definition screen_batch :: "client \<Rightarrow> mini list \<Rightarrow> nat \<Rightarrow> decision list \<times> nat \<times> event list" where
  "screen_batch cl papers_batch n = attempts cl papers_batch 3 n"

text \<open>The three columns the script adds to the table it has read.\<close>

fun number_rows :: "nat \<Rightarrow> paper list \<Rightarrow> paper list" where
  "number_rows i [] = []"
| "number_rows i (p # ps) =
     p\<lparr>Temp_ID := i, Included := False, Rejection_Reason := ''''\<rparr> # number_rows (Suc i) ps"

text \<open>Phase 1: the table after the pre-flight checks, and \<open>valid_papers_for_ai\<close>.\<close>

fun pre_flight :: "paper list \<Rightarrow> paper list \<times> paper list" where
  "pre_flight [] = ([], [])"
| "pre_flight (p # ps) =
     (case pre_flight ps of (df, valid_papers_for_ai) \<Rightarrow>
        (case pre_flight_check p of (is_valid, reason) \<Rightarrow>
           if is_valid then (p # df, p # valid_papers_for_ai)
           else (p\<lparr>Included := False, Rejection_Reason := ''Auto-Reject: '' @ reason\<rparr> # df,
                 valid_papers_for_ai)))"

text \<open>
  Phase 2: the slices \<open>valid_papers_for_ai[i : i + BATCH_SIZE]\<close> for
  \<open>i in range(0, len(valid_papers_for_ai), BATCH_SIZE)\<close>.
\<close>

definition batches_of :: "paper list \<Rightarrow> paper list list" where
  "batches_of valid =
     map (\<lambda>k. take BATCH_SIZE (drop (k * BATCH_SIZE) valid))
       [0 ..< (length valid + BATCH_SIZE - 1) div BATCH_SIZE]"

type_synonym results_map = "nat option \<rightharpoonup> decision"

fun record_decisions :: "decision list \<Rightarrow> results_map \<Rightarrow> results_map" where
  "record_decisions [] results = results"
| "record_decisions (d # ds) results = record_decisions ds (results(dec_ID d \<mapsto> d))"

fun run_batches ::
  "client \<Rightarrow> paper list list \<Rightarrow> results_map \<times> nat \<times> event list \<Rightarrow> results_map \<times> nat \<times> event list" where
  "run_batches cl [] st = st"
| "run_batches cl (batch # rest) (results, n, evs) =
     (case screen_batch cl (map to_mini batch) n of
        (batch_decisions, n', evs') \<Rightarrow>
          run_batches cl rest (record_decisions batch_decisions results, n', evs @ evs' @ [Sleep 1]))"

text \<open>Phase 3: the merge, row by row.\<close>

definition merge_row :: "results_map \<Rightarrow> paper \<Rightarrow> paper" where
  "merge_row results p =
     (case results (Some (Temp_ID p)) of
        Some res \<Rightarrow>
          p\<lparr>Included := (case dec_Included res of Some b \<Rightarrow> b | None \<Rightarrow> False),
            Rejection_Reason := (case dec_Reason res of Some r \<Rightarrow> r | None \<Rightarrow> ''Unknown'')\<rparr>
      | None \<Rightarrow> p)"

text \<open>
  The run: \<open>table\<close> is the table in memory at the end, \<open>persisted\<close> the rows written
  to the output file, \<open>answers\<close> the decisions received and \<open>events\<close> what the run did
  to the outside.
\<close>

record screening =
  table :: "paper list"
  persisted :: "paper list"
  answers :: results_map
  events :: "event list"

definition relevancy_filter :: "client \<Rightarrow> paper list \<Rightarrow> screening" where
  "relevancy_filter cl input =
     (case pre_flight (number_rows 0 input) of (df, valid_papers_for_ai) \<Rightarrow>
        (case (if valid_papers_for_ai \<noteq> []
               then run_batches cl (batches_of valid_papers_for_ai) (Map.empty, 0, [])
               else (Map.empty, 0, [])) of
           (results, n, evs) \<Rightarrow>
             (let df' = (if valid_papers_for_ai \<noteq> [] then map (merge_row results) df else df) in
              \<lparr>table = df', persisted = filter Included df', answers = results, events = evs\<rparr>)))"

text \<open>The table a run of the analyzer works on: the output file if it exists, else the input.\<close>

definition loaded_table :: "files \<Rightarrow> row list option" where
  "loaded_table fs = (case out_csv fs of Some df \<Rightarrow> Some df | None \<Rightarrow> in_csv fs)"

text \<open>
  The two guards of the loop over the rows, together: a row is still to be analysed
  when its \<open>Method\<close> is one of the four texts that stand for no result, its citation
  is not empty and not a separator line, and its link is not marked as online only.
\<close>

definition pending :: "row \<Rightarrow> bool" where
  "pending r =
     (Method r \<in> set [''nan'', '''', ''None'', ''Unknown''] \<and>
      \<not> (Full_Citation r = [] \<or> contains ''---'' (Full_Citation r) \<or>
         contains ''Online Link Only'' (Link r)))"

text \<open>The row of the table after its pre-flight check (the body of the loop of phase 1).\<close>

definition reject_row :: "paper \<Rightarrow> paper" where
  "reject_row p =
     (case pre_flight_check p of (is_valid, reason) \<Rightarrow>
        if is_valid then p
        else p\<lparr>Included := False, Rejection_Reason := ''Auto-Reject: '' @ reason\<rparr>)"

section \<open>Example inputs\<close>

text \<open>
  Concrete rows, folders and services, on which the theorems below are run.  The
  example of \<open>token_set_ratio\<close> gives 100 to equal texts, as the library does, and 10
  to all others.
\<close>

definition example_ratio :: ratio where
  "example_ratio a b = (if a = b then 100 else 10)"

definition example_row :: row where
  "example_row =
     \<lparr>Full_Citation = ''Smith, J. (2020). Deep Learning.'', Link = ''https://doi.org/10.1000/x'',
      Method = '''', Other_Columns = [''Smith'', ''2020'']\<rparr>"

definition example_listing :: "string list" where
  "example_listing = [''unrelated.pdf'', ''notes.txt'', ''Smith_J_2020_Deep_Learning.pdf'',
     ''smith j 2020 deep learning.PDF'']"

definition quoted :: "string \<Rightarrow> string" where
  "quoted s = CHR 0x22 # s @ [CHR 0x22]"

text \<open>
  A parser for the two response texts of the examples: the empty object, and the
  object with the one entry \<open>methodology\<close>; on any other text it raises as
  \<open>json.loads\<close> does on a text that starts with no value.
\<close>

definition example_loads :: "string \<Rightarrow> string + json_doc" where
  "example_loads t =
     (if t = ''{}'' then Inr (JObject [])
      else if t = ''{'' @ quoted ''methodology'' @ '': '' @ quoted ''Survey'' @ ''}''
      then Inr (JObject [(''methodology'', ''Survey'')])
      else if t = ''[]'' then Inr (JOther ''list object has no attribute get'')
      else Inl ''Expecting value: line 1 column 1 (char 0)'')"

text \<open>
  A service that ingests the file after two polls and answers with the given text.
\<close>

definition example_world :: "string \<Rightarrow> world" where
  "example_world text =
     \<lparr>copy2 = None, upload = Inr PROCESSING,
      files_get = (\<lambda>k. if k < 2 then Inr PROCESSING else Inr ACTIVE),
      generate_content = Inr text, json_loads = example_loads\<rparr>"

definition world_no_key :: world where
  "world_no_key = example_world ''```json {} ```''"

definition world_survey :: world where
  "world_survey =
     example_world (''{'' @ quoted ''methodology'' @ '': '' @ quoted ''Survey'' @ ''}'')"

definition example_files :: files where
  "example_files = \<lparr>in_csv = Some [example_row], out_csv = None, pdf_dir = Some example_listing\<rparr>"

definition long_abstract :: string where
  "long_abstract = ''We study deep learning methods for protein structure prediction.''"

definition example_paper :: "string \<Rightarrow> string \<Rightarrow> paper" where
  "example_paper t a =
     \<lparr>Temp_ID = 0, Title = t, Abstract = a, DOI = None, Included = False,
      Rejection_Reason = '''', Paper_Columns = []\<rparr>"

definition example_papers :: "paper list" where
  "example_papers =
     [example_paper ''First'' long_abstract, example_paper ''Second'' ''N/A'',
      example_paper ''Third'' long_abstract, example_paper ''Fourth'' long_abstract]"

text \<open>A service that is always busy, one that is broken, and one whose answer is no JSON.\<close>

definition busy_client :: client where
  "busy_client =
     \<lparr>models_generate_content = (\<lambda>n batch. Inl ''429 RESOURCE_EXHAUSTED. Quota exceeded.''),
      loads = (\<lambda>t. Inr [])\<rparr>"




text \<open>
  A service that answers for the papers 3 and 0 only, in this order, and without a
  reason for the second; the parser reads this one text.
\<close>

definition partial_text :: string where
  "partial_text =
     ''[{'' @ quoted ''ID'' @ '': 3, '' @ quoted ''Included'' @ '': true, '' @ quoted ''Reason''
       @ '': '' @ quoted ''On topic'' @ ''}, {'' @ quoted ''ID'' @ '': 0, '' @ quoted ''Included''
       @ '': false}]''"

definition partial_client :: client where
  "partial_client =
     \<lparr>models_generate_content = (\<lambda>n batch. Inr (''```json '' @ partial_text @ '' ```'')),
      loads = (\<lambda>t. if t = partial_text
         then Inr [\<lparr>dec_ID = Some 3, dec_Included = Some True, dec_Reason = Some ''On topic''\<rparr>,
                   \<lparr>dec_ID = Some 0, dec_Included = Some False, dec_Reason = None\<rparr>]
         else Inl ''Expecting value: line 1 column 1 (char 0)'')\<rparr>"

section \<open>Properties of the text normalizer\<close>

lemma split_from_chars:
  "w \<in> set (split_from acc s) \<Longrightarrow> c \<in> set w \<Longrightarrow> c \<in> set acc \<or> (c \<in> set s \<and> \<not> is_space c)"
proof (induction s arbitrary: acc)
  case Nil
  then show ?case by (auto split: if_splits)
next
  case (Cons a s)
  then show ?case by (fastforce split: if_splits)
qed

lemma join_chars: "c \<in> set (join ws) \<Longrightarrow> c = CHR '' '' \<or> (\<exists>w\<in>set ws. c \<in> set w)"
  by (induction ws rule: join.induct) auto

lemma sub_non_alnum_chars: "c \<in> set (sub_non_alnum s) \<Longrightarrow> is_lower_alnum c \<or> is_space c"
  by (auto simp: sub_non_alnum_def is_space_def split: if_splits)

lemma normalize_text_chars:
  assumes "c \<in> set (normalize_text v)"
  shows "is_lower_alnum c \<or> c = CHR '' ''"
proof -
  let ?t = "sub_non_alnum (replace (lower (py_str v)) ''.pdf'' '''')"
  from assms have "c = CHR '' '' \<or> (\<exists>w\<in>set (split ?t). c \<in> set w)"
    unfolding normalize_text_def by (rule join_chars)
  then show ?thesis
  proof
    assume "c = CHR '' ''"
    then show ?thesis by simp
  next
    assume "\<exists>w\<in>set (split ?t). c \<in> set w"
    then obtain w where w: "w \<in> set (split_from [] ?t)" "c \<in> set w"
      by (auto simp: split_def)
    from split_from_chars[OF w] have "c \<in> set ?t \<and> \<not> is_space c"
      by simp
    then show ?thesis
      using sub_non_alnum_chars by blast
  qed
qed

text \<open>
  C3, as the code has it: the normalizer is a function of its input alone and has a
  result for every input, a text of the characters \<open>a\<close>..\<open>z\<close>, \<open>0\<close>..\<open>9\<close> and the space.
  A value that is no text is normalized as the text \<open>str\<close> makes of it: \<open>None\<close> gives
  \<open>none\<close>, whereas the empty text gives the empty text.
\<close>

theorem normalize_text_total:
  "normalize_text v = normalize_text (PyStr (py_str v)) \<and>
   (\<forall>c\<in>set (normalize_text v). is_lower_alnum c \<or> c = CHR '' '') \<and>
   normalize_text PyNone = ''none'' \<and>
   normalize_text (PyStr '''') = ''''"
proof -
  have a: "normalize_text PyNone = ''none''"
    by code_simp
  have b: "normalize_text (PyStr '''') = ''''"
    by code_simp
  have c: "normalize_text v = normalize_text (PyStr (py_str v))"
    by (simp add: normalize_text_def)
  show ?thesis
    using a b c normalize_text_chars by blast
qed

theorem normalize_text_total_witness:
  "normalize_text (PyStr ''Deep Learning (2020).PDF'') = ''deep learning 2020'' \<and>
   normalize_text PyNaN = ''nan''"
  using normalize_text_total [of "PyStr ''Deep Learning (2020).PDF''"]
  by code_simp

text \<open>
  C3, as the specification states it, fails: an absent input does not give the
  normal form of the empty text.
\<close>

theorem normalize_text_absent_counterexample:
  "normalize_text PyNone \<noteq> normalize_text (PyStr '''')"
  by code_simp

section \<open>Properties of the fuzzy matcher\<close>

lemma match_row_no_files: "match_row ratio [] r = None"
  by (simp add: match_row_def find_best_local_match_def Let_def)

lemma match_rows_no_files: "match_rows ratio [] i df = []"
  by (induction df arbitrary: i) (simp_all add: match_row_no_files)

text \<open>
  C10: on an empty candidate set the matcher returns no candidate and the score
  \<open>-1\<close>, which is not above 85; a run whose folder lists no PDF file queues no task
  and leaves the table as it loaded it.
\<close>

theorem empty_candidates_queue_nothing:
  "find_best_local_match ratio citation [] = (None, - 1) \<and>
   \<not> 85 < snd (find_best_local_match ratio citation []) \<and>
   match_rows ratio [] 0 df = [] \<and>
   (local_pdfs_of listing = [] \<and> loaded_table fs = Some df \<and> pdf_dir fs = Some listing \<longrightarrow>
      run_fast_pipeline ratio env fs = Some \<lparr>saved = Some df, queued = []\<rparr>)"
  by (auto simp: find_best_local_match_def match_rows_no_files run_fast_pipeline_def
      analyze_table_def loaded_table_def split: option.splits)

theorem empty_candidates_queue_nothing_witness:
  "local_pdfs_of [''notes.txt''] = [] \<and>
   run_fast_pipeline (\<lambda>a b. 100) (\<lambda>i f. \<lparr>copy2 = None, upload = Inr ACTIVE,
       files_get = (\<lambda>k. Inr ACTIVE), generate_content = Inr ''{}'',
       json_loads = (\<lambda>t. Inr (JObject []))\<rparr>)
     \<lparr>in_csv = Some [\<lparr>Full_Citation = ''Smith 2020'', Link = '''', Method = '''',
         Other_Columns = []\<rparr>], out_csv = None, pdf_dir = Some [''notes.txt'']\<rparr>
   = Some \<lparr>saved = Some [\<lparr>Full_Citation = ''Smith 2020'', Link = '''', Method = '''',
         Other_Columns = []\<rparr>], queued = []\<rparr>"
proof -
  have e: "local_pdfs_of [''notes.txt''] = []"
    by code_simp
  show ?thesis
    using e empty_candidates_queue_nothing [of "\<lambda>a b. 100" "[]" "[\<lparr>Full_Citation = ''Smith 2020'', Link = '''', Method = '''',
         Other_Columns = []\<rparr>]" "[''notes.txt'']" "\<lparr>in_csv = Some [\<lparr>Full_Citation = ''Smith 2020'', Link = '''', Method = '''',
         Other_Columns = []\<rparr>], out_csv = None, pdf_dir = Some [''notes.txt'']\<rparr>"]
    by (simp add: loaded_table_def)
qed

lemma best_loop_split:
  "best_loop r c fs (bf, bs) = (bf', bs') \<Longrightarrow>
   (bf' = bf \<and> bs' = bs \<and> (\<forall>y\<in>set fs. r c (normalize_text (PyStr y)) \<le> bs)) \<or>
   (\<exists>pre x post. fs = pre @ x # post \<and> bf' = Some x \<and> bs' = r c (normalize_text (PyStr x)) \<and>
      bs < bs' \<and> (\<forall>y\<in>set pre. r c (normalize_text (PyStr y)) < bs') \<and>
      (\<forall>y\<in>set post. r c (normalize_text (PyStr y)) \<le> bs'))"
proof (induction fs arbitrary: bf bs)
  case Nil
  then show ?case by simp
next
  case (Cons f rest)
  let ?sc = "\<lambda>y. r c (normalize_text (PyStr y))"
  show ?case
  proof (cases "?sc f > bs")
    case True
    with Cons.prems have "best_loop r c rest (Some f, ?sc f) = (bf', bs')"
      by (simp add: Let_def)
    from Cons.IH[OF this] show ?thesis
    proof
      assume a: "bf' = Some f \<and> bs' = ?sc f \<and> (\<forall>y\<in>set rest. ?sc y \<le> ?sc f)"
      have "f # rest = [] @ f # rest \<and> bf' = Some f \<and> bs' = ?sc f \<and> bs < bs' \<and>
          (\<forall>y\<in>set []. ?sc y < bs') \<and> (\<forall>y\<in>set rest. ?sc y \<le> bs')"
        using a True by simp
      then show ?thesis by blast
    next
      assume "\<exists>pre x post. rest = pre @ x # post \<and> bf' = Some x \<and> bs' = ?sc x \<and>
        ?sc f < bs' \<and> (\<forall>y\<in>set pre. ?sc y < bs') \<and> (\<forall>y\<in>set post. ?sc y \<le> bs')"
      then obtain pre x post where b: "rest = pre @ x # post" "bf' = Some x" "bs' = ?sc x"
        "?sc f < bs'" "\<forall>y\<in>set pre. ?sc y < bs'" "\<forall>y\<in>set post. ?sc y \<le> bs'"
        by blast
      have "f # rest = (f # pre) @ x # post \<and> bf' = Some x \<and> bs' = ?sc x \<and> bs < bs' \<and>
          (\<forall>y\<in>set (f # pre). ?sc y < bs') \<and> (\<forall>y\<in>set post. ?sc y \<le> bs')"
        using b True by simp
      then show ?thesis by blast
    qed
  next
    case False
    with Cons.prems have "best_loop r c rest (bf, bs) = (bf', bs')"
      by (simp add: Let_def)
    from Cons.IH[OF this] show ?thesis
    proof
      assume "bf' = bf \<and> bs' = bs \<and> (\<forall>y\<in>set rest. ?sc y \<le> bs)"
      with False show ?thesis by simp
    next
      assume "\<exists>pre x post. rest = pre @ x # post \<and> bf' = Some x \<and> bs' = ?sc x \<and>
        bs < bs' \<and> (\<forall>y\<in>set pre. ?sc y < bs') \<and> (\<forall>y\<in>set post. ?sc y \<le> bs')"
      then obtain pre x post where b: "rest = pre @ x # post" "bf' = Some x" "bs' = ?sc x"
        "bs < bs'" "\<forall>y\<in>set pre. ?sc y < bs'" "\<forall>y\<in>set post. ?sc y \<le> bs'"
        by blast
      have "f # rest = (f # pre) @ x # post \<and> bf' = Some x \<and> bs' = ?sc x \<and> bs < bs' \<and>
          (\<forall>y\<in>set (f # pre). ?sc y < bs') \<and> (\<forall>y\<in>set post. ?sc y \<le> bs')"
        using b False by simp
      then show ?thesis by blast
    qed
  qed
qed

lemma find_best_first_max:
  assumes "fs \<noteq> []" and "\<forall>f\<in>set fs. 0 \<le> r (normalize_text (PyStr c)) (normalize_text (PyStr f))"
  shows "\<exists>pre x post. fs = pre @ x # post \<and>
     find_best_local_match r c fs = (Some x, r (normalize_text (PyStr c)) (normalize_text (PyStr x))) \<and>
     (\<forall>y\<in>set pre. r (normalize_text (PyStr c)) (normalize_text (PyStr y))
        < r (normalize_text (PyStr c)) (normalize_text (PyStr x))) \<and>
     (\<forall>y\<in>set post. r (normalize_text (PyStr c)) (normalize_text (PyStr y))
        \<le> r (normalize_text (PyStr c)) (normalize_text (PyStr x)))"
proof -
  obtain bf' bs' where res: "best_loop r (normalize_text (PyStr c)) fs (None, - 1) = (bf', bs')"
    by (cases "best_loop r (normalize_text (PyStr c)) fs (None, - 1)") auto
  from assms obtain f where "f \<in> set fs" "\<not> r (normalize_text (PyStr c)) (normalize_text (PyStr f)) \<le> - 1"
    by (cases fs) fastforce+
  then have "\<not> (\<forall>y\<in>set fs. r (normalize_text (PyStr c)) (normalize_text (PyStr y)) \<le> - 1)"
    by blast
  with best_loop_split[OF res] show ?thesis
    unfolding find_best_local_match_def res by blast
qed

lemma find_best_None: "find_best_local_match r c fs = (None, s) \<Longrightarrow> s = - 1"
proof -
  have "best_loop r c' fs (bf, bs) = (None, s) \<Longrightarrow> bf = None \<and> s = bs" for c' bf bs
    by (induction fs arbitrary: bf bs) (auto simp: Let_def split: if_splits)
  then show "find_best_local_match r c fs = (None, s) \<Longrightarrow> s = - 1"
    unfolding find_best_local_match_def by blast
qed

lemma match_row_pending:
  "match_row ratio pdfs r =
     (if pending r then
        (case find_best_local_match ratio (Full_Citation r) pdfs of
           (Some f, s) \<Rightarrow> if 85 < s then Some f else None
         | (None, s) \<Rightarrow> None)
      else None)"
  by (auto simp: match_row_def pending_def Let_def)

lemma match_rows_set:
  "(j, f) \<in> set (match_rows ratio pdfs i df) \<longleftrightarrow>
     (\<exists>k<length df. j = i + k \<and> match_row ratio pdfs (df ! k) = Some f)"
proof (induction df arbitrary: i)
  case Nil
  then show ?case by simp
next
  case (Cons r rs)
  have ex: "(\<exists>k<length (r # rs). j = i + k \<and> match_row ratio pdfs ((r # rs) ! k) = Some f) \<longleftrightarrow>
      (j = i \<and> match_row ratio pdfs r = Some f) \<or>
      (\<exists>k<length rs. j = Suc i + k \<and> match_row ratio pdfs (rs ! k) = Some f)"
    by (auto simp: less_Suc_eq_0_disj)
  show ?case
    unfolding ex using Cons.IH[of "Suc i"]
    by (auto split: option.splits)
qed

section \<open>Properties of a classification task\<close>

lemma wait_ready_not_processing: "st \<noteq> PROCESSING \<Longrightarrow> wait_ready get st k = Some (Inr st, k)"
  by (subst wait_ready.simps) simp

lemma wait_ready_poll_raises:
  "get k = Inl e \<Longrightarrow> wait_ready get PROCESSING k = Some (Inl e, Suc k)"
  by (subst wait_ready.simps) simp

lemma wait_ready_poll_state:
  "get k = Inr st \<Longrightarrow> wait_ready get PROCESSING k = wait_ready get st (Suc k)"
  by (subst wait_ready.simps) simp

lemma wait_ready_after:
  "(\<forall>j<n. get (k + j) = Inr PROCESSING) \<Longrightarrow>
   wait_ready get PROCESSING k = wait_ready get PROCESSING (k + n)"
proof (induction n arbitrary: k)
  case 0
  then show ?case by simp
next
  case (Suc n)
  from Suc.prems have g: "get k = Inr PROCESSING"
    by (metis add.right_neutral zero_less_Suc)
  from Suc.prems have "\<forall>j<n. get (Suc k + j) = Inr PROCESSING"
    by (metis Suc_less_eq add_Suc add_Suc_right)
  from Suc.IH[OF this] wait_ready_poll_state[of get k PROCESSING, OF g] show ?case
    by simp
qed

lemma wait_ready_forever:
  assumes "\<forall>j. get j = Inr PROCESSING"
  shows "wait_ready get PROCESSING k = None"
proof -
  have never: "\<not> (g = get \<and> st = PROCESSING)" if "wait_ready g st k = Some r" for g st k r
  proof (rule wait_ready.raw_induct[where P = "\<lambda>g st k r. \<not> (g = get \<and> st = PROCESSING)", OF _ that])
    fix f g st k r
    assume ih: "\<And>g st k r. f g st k = Some r \<Longrightarrow> \<not> (g = get \<and> st = PROCESSING)"
      and st: "(if st = PROCESSING then
        (case g k of
           Inl e \<Rightarrow> Some (Inl e, Suc k)
         | Inr st' \<Rightarrow> f g st' (Suc k))
      else Some (Inr st, k)) = Some r"
    show "\<not> (g = get \<and> st = PROCESSING)"
    proof
      assume a: "g = get \<and> st = PROCESSING"
      with assms have "g k = Inr PROCESSING" by simp
      with st a have "f g PROCESSING (Suc k) = Some r" by simp
      from ih[OF this] a show False by simp
    qed
  qed
  show ?thesis
  proof (rule ccontr)
    assume "wait_ready get PROCESSING k \<noteq> None"
    then obtain r where "wait_ready get PROCESSING k = Some r"
      by auto
    from never[OF this] show False
      by simp
  qed
qed

lemma wait_ready_finishes:
  assumes "\<forall>j<n. get j = Inr PROCESSING" and "get n = r" and "r \<noteq> Inr PROCESSING"
  shows "wait_ready get PROCESSING 0 =
     Some (case r of Inl e \<Rightarrow> (Inl e, Suc n) | Inr st \<Rightarrow> (Inr st, Suc n))"
proof -
  from assms(1) have "wait_ready get PROCESSING 0 = wait_ready get PROCESSING (0 + n)"
    by (intro wait_ready_after) simp
  also have "\<dots> = Some (case r of Inl e \<Rightarrow> (Inl e, Suc n) | Inr st \<Rightarrow> (Inr st, Suc n))"
  proof (cases r)
    case (Inl e)
    with assms(2) show ?thesis
      by (simp add: wait_ready_poll_raises)
  next
    case (Inr st)
    with assms(2,3) show ?thesis
      by (simp add: wait_ready_poll_state [of get n st] wait_ready_not_processing)
  qed
  finally show ?thesis .
qed

section \<open>Properties of the concurrent item analyzer\<close>

lemma analyze_row_idx: "analyze_single_paper w i f = Some (j, m, r) \<Longrightarrow> j = i"
  unfolding analyze_single_paper_def Let_def
  by (simp split: option.splits sum.splits prod.splits if_splits json_doc.splits)

lemma set_method_length: "length (set_method df i m) = length df"
  by (simp add: set_method_def)

lemma set_method_other: "j \<noteq> i \<Longrightarrow> set_method df i m ! j = df ! j"
  by (simp add: set_method_def)

lemma set_method_same:
  "j < length df \<Longrightarrow> set_method df i m ! j = (df ! j)\<lparr>Method := Method (set_method df i m ! j)\<rparr>"
  by (cases "j = i") (simp_all add: set_method_def)

lemma merge_results_frame:
  "merge_results env ts df = Some df' \<Longrightarrow>
   length df' = length df \<and>
   (j \<notin> fst ` set ts \<longrightarrow> df' ! j = df ! j) \<and>
   (j < length df \<longrightarrow> df' ! j = (df ! j)\<lparr>Method := Method (df' ! j)\<rparr>)"
proof (induction ts arbitrary: df)
  case Nil
  then show ?case by simp
next
  case (Cons t ts)
  obtain i f where t: "t = (i, f)" by (cases t)
  from Cons.prems t obtain m reason where
    a: "analyze_single_paper (env i f) i f = Some (i, m, reason)"
    and rest: "merge_results env ts (set_method df i m) = Some df'"
    by (auto split: option.splits dest: analyze_row_idx)
  from Cons.IH[OF rest] have ih1: "length df' = length (set_method df i m)"
    and ih2: "j \<notin> fst ` set ts \<longrightarrow> df' ! j = set_method df i m ! j"
    and ih3: "j < length (set_method df i m) \<longrightarrow>
        df' ! j = (set_method df i m ! j)\<lparr>Method := Method (df' ! j)\<rparr>"
    by simp_all
  have c1: "length df' = length df"
    using ih1 by (simp add: set_method_length)
  have c2: "j \<notin> fst ` set (t # ts) \<longrightarrow> df' ! j = df ! j"
    using ih2 t by (simp add: set_method_other)
  have c3: "j < length df \<longrightarrow> df' ! j = (df ! j)\<lparr>Method := Method (df' ! j)\<rparr>"
  proof
    assume j: "j < length df"
    with ih3 have "df' ! j = (set_method df i m ! j)\<lparr>Method := Method (df' ! j)\<rparr>"
      by (simp add: set_method_length)
    also have "set_method df i m ! j = (df ! j)\<lparr>Method := Method (set_method df i m ! j)\<rparr>"
      using j by (rule set_method_same)
    finally show "df' ! j = (df ! j)\<lparr>Method := Method (df' ! j)\<rparr>"
      by simp
  qed
  show ?case using c1 c2 c3 by simp
qed

lemma merge_results_append:
  "merge_results env (xs @ ys) df =
     (case merge_results env xs df of None \<Rightarrow> None | Some d \<Rightarrow> merge_results env ys d)"
proof (induction xs arbitrary: df)
  case Nil
  then show ?case by simp
next
  case (Cons t xs)
  obtain i f where t: "t = (i, f)" by (cases t)
  show ?case
    unfolding t by (simp add: Cons.IH split: option.splits prod.splits)
qed

lemma set_method_swap:
  "i \<noteq> j \<Longrightarrow> set_method (set_method df i m) j m' = set_method (set_method df j m') i m"
  by (simp add: set_method_def list_update_swap)

lemma merge_results_swap:
  assumes "fst a \<noteq> fst b"
  shows "merge_results env (pre @ a # b # post) df = merge_results env (pre @ b # a # post) df"
proof -
  obtain i f where a: "a = (i, f)" by (cases a)
  obtain j g where b: "b = (j, g)" by (cases b)
  from assms a b have ij: "i \<noteq> j" by simp
  have "merge_results env (a # b # post) d = merge_results env (b # a # post) d" for d
  proof (cases "analyze_single_paper (env i f) i f")
    case None
    then show ?thesis
      unfolding a b by (simp split: option.splits prod.splits)
  next
    case (Some r)
    obtain i' m reason where r: "r = (i', m, reason)" by (cases r)
    with Some analyze_row_idx have ri: "analyze_single_paper (env i f) i f = Some (i, m, reason)"
      by blast
    show ?thesis
    proof (cases "analyze_single_paper (env j g) j g")
      case None
      then show ?thesis
        unfolding a b by (simp add: ri)
    next
      case (Some s)
      obtain j' m' reason' where s: "s = (j', m', reason')" by (cases s)
      with Some analyze_row_idx have sj: "analyze_single_paper (env j g) j g = Some (j, m', reason')"
        by blast
      show ?thesis
        unfolding a b by (simp add: ri sj set_method_swap[OF ij])
    qed
  qed
  then show ?thesis
    by (simp add: merge_results_append split: option.splits)
qed

lemma match_rows_bounds: "(j, f) \<in> set (match_rows ratio pdfs i df) \<Longrightarrow> i \<le> j"
  by (simp add: match_rows_set) auto

lemma match_rows_distinct: "distinct (map fst (match_rows ratio pdfs i df))"
proof (induction df arbitrary: i)
  case Nil
  then show ?case by simp
next
  case (Cons r rs)
  have "i \<notin> fst ` set (match_rows ratio pdfs (Suc i) rs)"
    using match_rows_bounds[of i _ ratio pdfs "Suc i" rs] by force
  with Cons.IH[of "Suc i"] show ?case
    by (simp split: option.splits)
qed

lemma analyze_table_shape:
  assumes "analyze_table ratio env dir df = Some out"
  shows "\<exists>df'. saved out = Some df' \<and> merge_results env (queued out) df = Some df' \<and>
     queued out = (case dir of None \<Rightarrow> [] | Some listing \<Rightarrow> match_rows ratio (local_pdfs_of listing) 0 df)"
proof (cases dir)
  case None
  with assms show ?thesis
    by (auto simp: analyze_table_def)
next
  case (Some listing)
  show ?thesis
  proof (cases "match_rows ratio (local_pdfs_of listing) 0 df = []")
    case True
    with assms Some show ?thesis
      by (auto simp: analyze_table_def)
  next
    case False
    with assms Some show ?thesis
      by (auto simp: analyze_table_def Let_def split: option.splits)
  qed
qed

lemma run_is_analyze_table:
  "loaded_table fs = Some df \<Longrightarrow>
   run_fast_pipeline ratio env fs = analyze_table ratio env (pdf_dir fs) df"
  by (auto simp: run_fast_pipeline_def loaded_table_def split: option.splits)


lemma match_rows_fst:
  "j \<in> fst ` set (match_rows ratio pdfs 0 df) \<longleftrightarrow>
     (j < length df \<and> match_row ratio pdfs (df ! j) \<noteq> None)"
proof -
  have "j \<in> fst ` set (match_rows ratio pdfs 0 df) \<longleftrightarrow>
      (\<exists>f. (j, f) \<in> set (match_rows ratio pdfs 0 df))"
    by force
  also have "\<dots> \<longleftrightarrow> (\<exists>f. j < length df \<and> match_row ratio pdfs (df ! j) = Some f)"
    by (simp add: match_rows_set)
  finally show ?thesis by auto
qed


lemma run_frame:
  assumes "run_fast_pipeline ratio env fs = Some out" and "loaded_table fs = Some df"
  shows "\<exists>df'. saved out = Some df' \<and>
     map (\<lambda>r. r\<lparr>Method := ''''\<rparr>) df' = map (\<lambda>r. r\<lparr>Method := ''''\<rparr>) df"
proof -
  from assms have "analyze_table ratio env (pdf_dir fs) df = Some out"
    by (simp add: run_is_analyze_table)
  from analyze_table_shape[OF this] obtain df' where
    s: "saved out = Some df'" and m: "merge_results env (queued out) df = Some df'"
    by blast
  have "map (\<lambda>r. r\<lparr>Method := ''''\<rparr>) df' = map (\<lambda>r. r\<lparr>Method := ''''\<rparr>) df"
  proof (rule nth_equalityI)
    show "length (map (\<lambda>r. r\<lparr>Method := ''''\<rparr>) df') = length (map (\<lambda>r. r\<lparr>Method := ''''\<rparr>) df)"
      using merge_results_frame[OF m] by simp
  next
    fix k
    assume "k < length (map (\<lambda>r. r\<lparr>Method := ''''\<rparr>) df')"
    then have k: "k < length df" "k < length df'"
      using merge_results_frame[OF m] by simp_all
    from merge_results_frame[OF m, of k] k obtain v where "df' ! k = (df ! k)\<lparr>Method := v\<rparr>"
      by blast
    then have "(df' ! k)\<lparr>Method := ''''\<rparr> = ((df ! k)\<lparr>Method := v\<rparr>)\<lparr>Method := ''''\<rparr>"
      by (rule arg_cong)
    then have "(df' ! k)\<lparr>Method := ''''\<rparr> = (df ! k)\<lparr>Method := ''''\<rparr>"
      by simp
    with k show "map (\<lambda>r. r\<lparr>Method := ''''\<rparr>) df' ! k = map (\<lambda>r. r\<lparr>Method := ''''\<rparr>) df ! k"
      by simp
  qed
  with s show ?thesis by blast
qed

section \<open>Properties of the batch classifier\<close>

lemma number_rows_length: "length (number_rows i ps) = length ps"
  by (induction ps arbitrary: i) simp_all

lemma number_rows_nth:
  "k < length ps \<Longrightarrow>
   number_rows i ps ! k = (ps ! k)\<lparr>Temp_ID := i + k, Included := False, Rejection_Reason := ''''\<rparr>"
proof (induction ps arbitrary: i k)
  case Nil
  then show ?case by simp
next
  case (Cons p ps)
  then show ?case by (cases k) simp_all
qed

lemma pre_flight_check_frame:
  "pre_flight_check (p\<lparr>Temp_ID := i, Included := b, Rejection_Reason := r\<rparr>) = pre_flight_check p"
  by (simp add: pre_flight_check_def Let_def)

lemma pre_flight_eq:
  "pre_flight df = (map reject_row df, filter (\<lambda>p. fst (pre_flight_check p)) df)"
  by (induction df) (auto simp: reject_row_def split: prod.splits)

lemma attempts_events:
  "attempts cl b left n = (ds, n', evs) \<Longrightarrow> e \<in> set evs \<Longrightarrow> e = Call b \<or> e = Sleep 10"
proof (induction left arbitrary: n ds n' evs)
  case 0
  then show ?case by simp
next
  case (Suc left)
  show ?case
  proof (cases "attempt cl n b")
    case (Inr decisions)
    with Suc.prems show ?thesis by auto
  next
    case (Inl msg)
    show ?thesis
    proof (cases "rate_limited msg")
      case False
      with Inl Suc.prems show ?thesis by auto
    next
      case True
      obtain ds2 n2 evs2 where r: "attempts cl b left (Suc n) = (ds2, n2, evs2)"
        by (cases "attempts cl b left (Suc n)") auto
      with Inl True Suc.prems have "evs = Call b # Sleep 10 # evs2"
        by simp
      with Suc.prems(2) Suc.IH[OF r] show ?thesis by auto
    qed
  qed
qed

lemma run_batches_calls:
  "run_batches cl bs (rm, n, evs) = (rm', n', evs') \<Longrightarrow> Call b \<in> set evs' \<Longrightarrow>
   Call b \<in> set evs \<or> (\<exists>batch\<in>set bs. b = map to_mini batch)"
proof (induction bs arbitrary: rm n evs)
  case Nil
  then show ?case by simp
next
  case (Cons batch rest)
  obtain ds n2 evs2 where s: "screen_batch cl (map to_mini batch) n = (ds, n2, evs2)"
    by (cases "screen_batch cl (map to_mini batch) n") auto
  with Cons.prems(1) have
    "run_batches cl rest (record_decisions ds rm, n2, evs @ evs2 @ [Sleep 1]) = (rm', n', evs')"
    by simp
  from Cons.IH[OF this Cons.prems(2)] have
    "Call b \<in> set (evs @ evs2 @ [Sleep 1]) \<or> (\<exists>batch\<in>set rest. b = map to_mini batch)" .
  moreover have "Call b \<in> set evs2 \<Longrightarrow> b = map to_mini batch"
    using attempts_events[OF s[unfolded screen_batch_def], of "Call b"] by simp
  ultimately show ?case by auto
qed

lemma batches_of_subset: "batch \<in> set (batches_of valid) \<Longrightarrow> set batch \<subseteq> set valid"
  by (auto simp: batches_of_def dest!: in_set_takeD in_set_dropD)

lemma relevancy_filter_events:
  assumes "Call b \<in> set (events (relevancy_filter cl input))"
  shows "\<exists>batch. b = map to_mini batch \<and>
     set batch \<subseteq> {p \<in> set (number_rows 0 input). fst (pre_flight_check p)}"
proof -
  let ?valid = "filter (\<lambda>p. fst (pre_flight_check p)) (number_rows 0 input)"
  obtain rm n evs where rb: "run_batches cl (batches_of ?valid) (Map.empty, 0, []) = (rm, n, evs)"
    by (cases "run_batches cl (batches_of ?valid) (Map.empty, 0, [])") auto
  from assms have "?valid \<noteq> [] \<and> Call b \<in> set evs"
    by (auto simp: relevancy_filter_def pre_flight_eq rb Let_def split: if_splits)
  with run_batches_calls[OF rb] obtain batch where
    "batch \<in> set (batches_of ?valid)" "b = map to_mini batch"
    by auto
  with batches_of_subset[of batch ?valid] show ?thesis
    by auto
qed

lemma numbered_row:
  "q \<in> set (number_rows 0 input) \<Longrightarrow>
   Temp_ID q < length input \<and> q = number_rows 0 input ! Temp_ID q"
proof -
  assume "q \<in> set (number_rows 0 input)"
  then obtain k where k: "k < length input" "q = number_rows 0 input ! k"
    by (auto simp: in_set_conv_nth number_rows_length)
  then have "Temp_ID q = k"
    by (simp add: number_rows_nth)
  with k show ?thesis by simp
qed

lemma attempts_rate_limited:
  assumes "\<forall>n b. \<exists>msg. attempt cl n b = Inl msg \<and> rate_limited msg"
  shows "attempts cl b left n = ([], n + left, concat (replicate left [Call b, Sleep 10]))"
proof (induction left arbitrary: n)
  case 0
  then show ?case by simp
next
  case (Suc left)
  from assms obtain msg where "attempt cl n b = Inl msg" "rate_limited msg"
    by blast
  with Suc.IH[of "Suc n"] show ?case by simp
qed

lemma run_batches_rate_limited:
  assumes "\<forall>n b. \<exists>msg. attempt cl n b = Inl msg \<and> rate_limited msg"
  shows "fst (run_batches cl bs (rm, n, evs)) = rm"
proof (induction bs arbitrary: n evs)
  case Nil
  then show ?case by simp
next
  case (Cons batch rest)
  then show ?case
    by (simp add: screen_batch_def attempts_rate_limited[OF assms])
qed

lemma merge_row_empty: "merge_row Map.empty p = p"
  by (simp add: merge_row_def)

lemma reject_row_valid: "fst (pre_flight_check p) \<Longrightarrow> reject_row p = p"
  by (auto simp: reject_row_def split: prod.splits)

lemma reject_row_invalid:
  "pre_flight_check p = (False, reason) \<Longrightarrow>
   reject_row p = p\<lparr>Included := False, Rejection_Reason := ''Auto-Reject: '' @ reason\<rparr>"
  by (simp add: reject_row_def)

lemma numbered_reject_not_included:
  "q \<in> set (map reject_row (number_rows 0 input)) \<Longrightarrow> \<not> Included q"
proof -
  assume "q \<in> set (map reject_row (number_rows 0 input))"
  then obtain k where k: "k < length input" "q = reject_row (number_rows 0 input ! k)"
    by (auto simp: in_set_conv_nth number_rows_length)
  then show ?thesis
    by (cases "pre_flight_check (number_rows 0 input ! k)")
      (auto simp: reject_row_def number_rows_nth)
qed

lemma valid_row_unresolved:
  assumes "p \<in> set (snd (pre_flight (number_rows 0 input)))"
  shows "Temp_ID p < length input \<and> fst (pre_flight (number_rows 0 input)) ! Temp_ID p = p \<and>
     \<not> Included p \<and> Rejection_Reason p = ''''"
proof -
  from assms have p: "p \<in> set (number_rows 0 input)" and ok: "fst (pre_flight_check p)"
    by (simp_all add: pre_flight_eq)
  from numbered_row[OF p] have k: "Temp_ID p < length input"
    and eq: "p = number_rows 0 input ! Temp_ID p"
    by simp_all
  have "fst (pre_flight (number_rows 0 input)) ! Temp_ID p = reject_row (number_rows 0 input ! Temp_ID p)"
    using k by (simp add: pre_flight_eq number_rows_length)
  also have "\<dots> = p"
    using eq ok reject_row_valid by simp
  finally have a: "fst (pre_flight (number_rows 0 input)) ! Temp_ID p = p" .
  have "\<not> Included (number_rows 0 input ! Temp_ID p) \<and>
      Rejection_Reason (number_rows 0 input ! Temp_ID p) = ''''"
    using k by (simp add: number_rows_nth)
  with eq a k show ?thesis by simp
qed




lemma record_decisions_source:
  "record_decisions ds results key = Some d \<Longrightarrow>
   results key = Some d \<or> (d \<in> set ds \<and> dec_ID d = key)"
proof (induction ds arbitrary: results)
  case Nil
  then show ?case by simp
next
  case (Cons a ds)
  from Cons.prems have "record_decisions ds (results(dec_ID a \<mapsto> a)) key = Some d"
    by simp
  from Cons.IH[OF this] show ?case
    by (cases "dec_ID a = key") auto
qed

lemma attempts_source:
  "attempts cl b left n = (ds, n', evs) \<Longrightarrow> ds = [] \<or> (\<exists>m. attempt cl m b = Inr ds)"
proof (induction left arbitrary: n ds n' evs)
  case 0
  then show ?case by simp
next
  case (Suc left)
  show ?case
  proof (cases "attempt cl n b")
    case (Inr decisions)
    with Suc.prems show ?thesis by auto
  next
    case (Inl msg)
    show ?thesis
    proof (cases "rate_limited msg")
      case False
      with Inl Suc.prems show ?thesis by auto
    next
      case True
      obtain ds2 n2 evs2 where r: "attempts cl b left (Suc n) = (ds2, n2, evs2)"
        by (cases "attempts cl b left (Suc n)") auto
      with Inl True Suc.prems have "ds = ds2"
        by simp
      with Suc.IH[OF r] show ?thesis by simp
    qed
  qed
qed

lemma run_batches_source:
  "run_batches cl bs (rm, n, evs) = (rm', n', evs') \<Longrightarrow> rm' key = Some d \<Longrightarrow>
   rm key = Some d \<or>
   (\<exists>batch\<in>set bs. \<exists>m ds. attempt cl m (map to_mini batch) = Inr ds \<and> d \<in> set ds \<and> dec_ID d = key)"
proof (induction bs arbitrary: rm n evs)
  case Nil
  then show ?case by simp
next
  case (Cons batch rest)
  obtain ds n2 evs2 where s: "screen_batch cl (map to_mini batch) n = (ds, n2, evs2)"
    by (cases "screen_batch cl (map to_mini batch) n") auto
  with Cons.prems(1) have
    "run_batches cl rest (record_decisions ds rm, n2, evs @ evs2 @ [Sleep 1]) = (rm', n', evs')"
    by simp
  from Cons.IH[OF this Cons.prems(2)] have
    "record_decisions ds rm key = Some d \<or>
     (\<exists>batch\<in>set rest. \<exists>m ds. attempt cl m (map to_mini batch) = Inr ds \<and> d \<in> set ds \<and> dec_ID d = key)" .
  then show ?case
  proof
    assume "record_decisions ds rm key = Some d"
    from record_decisions_source[OF this] show ?thesis
    proof
      assume "rm key = Some d"
      then show ?thesis by simp
    next
      assume d: "d \<in> set ds \<and> dec_ID d = key"
      with attempts_source[OF s[unfolded screen_batch_def]] obtain m where
        "attempt cl m (map to_mini batch) = Inr ds"
        by auto
      with d show ?thesis by auto
    qed
  next
    assume "\<exists>batch\<in>set rest. \<exists>m ds. attempt cl m (map to_mini batch) = Inr ds \<and> d \<in> set ds \<and> dec_ID d = key"
    then show ?thesis by auto
  qed
qed

lemma relevancy_filter_table:
  "table (relevancy_filter cl input) =
     map (merge_row (answers (relevancy_filter cl input))) (fst (pre_flight (number_rows 0 input)))"
proof -
  have "map (merge_row Map.empty) df = df" for df
    by (induction df) (simp_all add: merge_row_empty)
  then show ?thesis
    by (simp add: relevancy_filter_def Let_def split: prod.splits)
qed

lemma relevancy_filter_answers:
  assumes "answers (relevancy_filter cl input) key = Some d"
  shows "\<exists>batch m ds. set batch \<subseteq> {p \<in> set (number_rows 0 input). fst (pre_flight_check p)} \<and>
     attempt cl m (map to_mini batch) = Inr ds \<and> d \<in> set ds \<and> dec_ID d = key"
proof -
  let ?valid = "filter (\<lambda>p. fst (pre_flight_check p)) (number_rows 0 input)"
  obtain rm n evs where rb: "run_batches cl (batches_of ?valid) (Map.empty, 0, []) = (rm, n, evs)"
    by (cases "run_batches cl (batches_of ?valid) (Map.empty, 0, [])") auto
  from assms have "rm key = Some d"
    by (auto simp: relevancy_filter_def pre_flight_eq rb Let_def split: if_splits)
  from run_batches_source[OF rb this] obtain batch m ds where
    "batch \<in> set (batches_of ?valid)" "attempt cl m (map to_mini batch) = Inr ds" "d \<in> set ds"
    "dec_ID d = key"
    by auto
  with batches_of_subset[of batch ?valid] show ?thesis
    by (intro exI[of _ batch] exI[of _ m] exI[of _ ds]) auto
qed

lemma rejected_not_submitted:
  assumes i: "i < length input" and bad: "pre_flight_check (input ! i) = (False, reason)"
    and sub: "set batch \<subseteq> {p \<in> set (number_rows 0 input). fst (pre_flight_check p)}"
  shows "i \<notin> fst ` set (map to_mini batch)"
proof
  assume "i \<in> fst ` set (map to_mini batch)"
  then obtain q where q: "q \<in> set batch" "Temp_ID q = i"
    by (auto simp: to_mini_def)
  with sub have qn: "q \<in> set (number_rows 0 input)" and ok: "fst (pre_flight_check q)"
    by auto
  from numbered_row[OF qn] q(2) have "q = number_rows 0 input ! i"
    by simp
  with i have "pre_flight_check q = pre_flight_check (input ! i)"
    by (simp add: number_rows_nth pre_flight_check_frame)
  with ok bad show False by simp
qed

lemma merge_row_frame:
  "Temp_ID (merge_row a p) = Temp_ID p \<and>
   (merge_row a p)\<lparr>Included := False, Rejection_Reason := ''''\<rparr> =
     p\<lparr>Included := False, Rejection_Reason := ''''\<rparr>"
  by (simp add: merge_row_def split: option.splits)

lemma reject_row_frame:
  "Temp_ID (reject_row p) = Temp_ID p \<and>
   (reject_row p)\<lparr>Included := False, Rejection_Reason := ''''\<rparr> =
     p\<lparr>Included := False, Rejection_Reason := ''''\<rparr>"
  by (simp add: reject_row_def split: prod.splits)

lemma table_nth:
  "k < length input \<Longrightarrow>
   table (relevancy_filter cl input) ! k =
     merge_row (answers (relevancy_filter cl input)) (reject_row (number_rows 0 input ! k))"
  by (simp add: relevancy_filter_table pre_flight_eq number_rows_length)

lemma table_length: "length (table (relevancy_filter cl input)) = length input"
  by (simp add: relevancy_filter_table pre_flight_eq number_rows_length)

lemma table_ids: "map Temp_ID (table (relevancy_filter cl input)) = [0..<length input]"
  by (rule nth_equalityI)
    (simp_all add: table_length table_nth merge_row_frame reject_row_frame number_rows_nth)

lemma table_frame:
  "map (\<lambda>p. p\<lparr>Temp_ID := 0, Included := False, Rejection_Reason := ''''\<rparr>)
     (table (relevancy_filter cl input)) =
   map (\<lambda>p. p\<lparr>Temp_ID := 0, Included := False, Rejection_Reason := ''''\<rparr>) input"
proof (rule nth_equalityI)
  show "length (map (\<lambda>p. p\<lparr>Temp_ID := 0, Included := False, Rejection_Reason := ''''\<rparr>)
      (table (relevancy_filter cl input))) =
    length (map (\<lambda>p. p\<lparr>Temp_ID := 0, Included := False, Rejection_Reason := ''''\<rparr>) input)"
    by (simp add: table_length)
next
  fix k
  assume "k < length (map (\<lambda>p. p\<lparr>Temp_ID := 0, Included := False, Rejection_Reason := ''''\<rparr>)
      (table (relevancy_filter cl input)))"
  then have k: "k < length input"
    by (simp add: table_length)
  let ?a = "answers (relevancy_filter cl input)"
  let ?q = "reject_row (number_rows 0 input ! k)"
  have "(merge_row ?a ?q)\<lparr>Included := False, Rejection_Reason := ''''\<rparr> =
      ?q\<lparr>Included := False, Rejection_Reason := ''''\<rparr>"
    using merge_row_frame[of ?a ?q] by simp
  also have "\<dots> = (number_rows 0 input ! k)\<lparr>Included := False, Rejection_Reason := ''''\<rparr>"
    using reject_row_frame[of "number_rows 0 input ! k"] by simp
  finally have "(merge_row ?a ?q)\<lparr>Temp_ID := 0, Included := False, Rejection_Reason := ''''\<rparr> =
      (input ! k)\<lparr>Temp_ID := 0, Included := False, Rejection_Reason := ''''\<rparr>"
    using k by (simp add: number_rows_nth) (metis paper.update_convs(1) paper.surjective paper.update_convs(5) paper.update_convs(6))
  with k show "map (\<lambda>p. p\<lparr>Temp_ID := 0, Included := False, Rejection_Reason := ''''\<rparr>)
      (table (relevancy_filter cl input)) ! k =
    map (\<lambda>p. p\<lparr>Temp_ID := 0, Included := False, Rejection_Reason := ''''\<rparr>) input ! k"
    by (simp add: table_length table_nth)
qed


section \<open>The claims about a classification task\<close>

text \<open>
  C9: in a task, an exception raised by the copy, by the upload, by a poll of the
  ingest, by the classification call or by the parsing of its response (a text that
  is no JSON, or a JSON value that is no object) becomes the result with the
  category \<open>Error\<close> and the description of the exception, for the row of the task;
  the run then writes \<open>Error\<close> to that row and goes on with the other tasks.  The
  polling loop has no bound of its own: a service that reports \<open>PROCESSING\<close> to the
  first \<open>n\<close> polls is polled \<open>n + 1\<close> times, for every \<open>n\<close>, and with a service
  that reports \<open>PROCESSING\<close> for ever the loop does not end.
\<close>

theorem task_exceptions_become_results:
  "(copy2 w = Some e \<longrightarrow> analyze_single_paper w i f = Some (i, ''Error'', e)) \<and>
   (copy2 w = None \<and> upload w = Inl e \<longrightarrow> analyze_single_paper w i f = Some (i, ''Error'', e)) \<and>
   (copy2 w = None \<and> upload w = Inr PROCESSING \<and> (\<forall>j<n. files_get w j = Inr PROCESSING) \<and>
      files_get w n = Inl e \<longrightarrow> analyze_single_paper w i f = Some (i, ''Error'', e)) \<and>
   (copy2 w = None \<and> upload w = Inr st \<and> wait_ready (files_get w) st 0 = Some (Inr ACTIVE, k) \<and>
      generate_content w = Inl e \<longrightarrow> analyze_single_paper w i f = Some (i, ''Error'', e)) \<and>
   (copy2 w = None \<and> upload w = Inr st \<and> wait_ready (files_get w) st 0 = Some (Inr ACTIVE, k) \<and>
      generate_content w = Inr reply \<and>
      (json_loads w (strip (replace (replace reply ''```json'' '''') ''```'' '''')) = Inl e \<or>
       json_loads w (strip (replace (replace reply ''```json'' '''') ''```'' '''')) = Inr (JOther e))
      \<longrightarrow> analyze_single_paper w i f = Some (i, ''Error'', e)) \<and>
   (analyze_single_paper (env i f) i f = Some (i, ''Error'', e) \<longrightarrow>
      merge_results env ((i, f) # ts) df = merge_results env ts (set_method df i ''Error'')) \<and>
   ((\<forall>j<n. get j = Inr PROCESSING) \<and> get n = Inr ACTIVE \<longrightarrow>
      wait_ready get PROCESSING 0 = Some (Inr ACTIVE, Suc n)) \<and>
   ((\<forall>j. get j = Inr PROCESSING) \<longrightarrow> wait_ready get PROCESSING 0 = None)"
proof -
  have poll: "analyze_single_paper w i f = Some (i, ''Error'', e)"
    if "copy2 w = None" "upload w = Inr PROCESSING" "\<forall>j<n. files_get w j = Inr PROCESSING"
      "files_get w n = Inl e"
  proof -
    from wait_ready_finishes [OF that(3) that(4)]
    have "wait_ready (files_get w) PROCESSING 0 = Some (Inl e, Suc n)"
      by simp
    with that(1,2) show ?thesis
      by (simp add: analyze_single_paper_def)
  qed
  have ready: "wait_ready get PROCESSING 0 = Some (Inr ACTIVE, Suc n)"
    if "\<forall>j<n. get j = Inr PROCESSING" "get n = Inr ACTIVE"
    using wait_ready_finishes [OF that] by simp
  show ?thesis
    apply (intro conjI impI)
    subgoal by (simp add: analyze_single_paper_def)
    subgoal by (simp add: analyze_single_paper_def)
    subgoal using poll by blast
    subgoal by (simp add: analyze_single_paper_def)
    subgoal by (auto simp: analyze_single_paper_def)
    subgoal by simp
    subgoal using ready by blast
    subgoal using wait_ready_forever by blast
    done
qed

section \<open>The claims about the concurrent item analyzer\<close>


text \<open>
  C8: on a non-empty list of candidates (scores are not negative), the matcher
  returns the first candidate that attains the maximum score: every candidate
  before it scores less, every candidate after it scores at most as much.  A
  pending row is queued with this candidate exactly when the score is above 85;
  otherwise it is not queued, and a run leaves the row as it was, still pending.
\<close>

theorem best_match_first_maximum:
  assumes files: "local_pdfs \<noteq> []"
    and nonneg: "\<forall>f\<in>set local_pdfs.
        0 \<le> ratio (normalize_text (PyStr (Full_Citation (df ! i)))) (normalize_text (PyStr f))"
  shows "\<exists>pre x post. local_pdfs = pre @ x # post \<and>
     find_best_local_match ratio (Full_Citation (df ! i)) local_pdfs =
       (Some x, ratio (normalize_text (PyStr (Full_Citation (df ! i)))) (normalize_text (PyStr x))) \<and>
     (\<forall>y\<in>set pre. ratio (normalize_text (PyStr (Full_Citation (df ! i)))) (normalize_text (PyStr y))
        < ratio (normalize_text (PyStr (Full_Citation (df ! i)))) (normalize_text (PyStr x))) \<and>
     (\<forall>y\<in>set post. ratio (normalize_text (PyStr (Full_Citation (df ! i)))) (normalize_text (PyStr y))
        \<le> ratio (normalize_text (PyStr (Full_Citation (df ! i)))) (normalize_text (PyStr x))) \<and>
     (i < length df \<and> pending (df ! i) \<longrightarrow>
        ((i, x) \<in> set (match_rows ratio local_pdfs 0 df) \<longleftrightarrow>
           85 < ratio (normalize_text (PyStr (Full_Citation (df ! i)))) (normalize_text (PyStr x))) \<and>
        (\<not> 85 < ratio (normalize_text (PyStr (Full_Citation (df ! i)))) (normalize_text (PyStr x)) \<longrightarrow>
           i \<notin> fst ` set (match_rows ratio local_pdfs 0 df) \<and>
           (\<forall>env df'. merge_results env (match_rows ratio local_pdfs 0 df) df = Some df' \<longrightarrow>
              df' ! i = df ! i \<and> pending (df' ! i))))"
proof -
  let ?sc = "\<lambda>y. ratio (normalize_text (PyStr (Full_Citation (df ! i)))) (normalize_text (PyStr y))"
  from find_best_first_max[where fs = local_pdfs and r = ratio and c = "Full_Citation (df ! i)",
      OF files nonneg] obtain pre x post where
    sp: "local_pdfs = pre @ x # post"
    and fb: "find_best_local_match ratio (Full_Citation (df ! i)) local_pdfs = (Some x, ?sc x)"
    and before: "\<forall>y\<in>set pre. ?sc y < ?sc x" and after: "\<forall>y\<in>set post. ?sc y \<le> ?sc x"
    by blast
  have row: "((i, x) \<in> set (match_rows ratio local_pdfs 0 df) \<longleftrightarrow> 85 < ?sc x) \<and>
      (\<not> 85 < ?sc x \<longrightarrow>
         i \<notin> fst ` set (match_rows ratio local_pdfs 0 df) \<and>
         (\<forall>env df'. merge_results env (match_rows ratio local_pdfs 0 df) df = Some df' \<longrightarrow>
            df' ! i = df ! i \<and> pending (df' ! i)))"
    if i: "i < length df" and pend: "pending (df ! i)"
  proof -
    have mr: "match_row ratio local_pdfs (df ! i) = (if 85 < ?sc x then Some x else None)"
      using pend fb by (simp add: match_row_pending)
    have q: "(i, x) \<in> set (match_rows ratio local_pdfs 0 df) \<longleftrightarrow> 85 < ?sc x"
      using i mr by (simp add: match_rows_set)
    have skip: "i \<notin> fst ` set (match_rows ratio local_pdfs 0 df) \<and>
        (\<forall>env df'. merge_results env (match_rows ratio local_pdfs 0 df) df = Some df' \<longrightarrow>
           df' ! i = df ! i \<and> pending (df' ! i))"
      if low: "\<not> 85 < ?sc x"
    proof -
      from low mr have n: "i \<notin> fst ` set (match_rows ratio local_pdfs 0 df)"
        by (simp add: match_rows_fst)
      have "df' ! i = df ! i \<and> pending (df' ! i)"
        if "merge_results env (match_rows ratio local_pdfs 0 df) df = Some df'" for env df'
        using merge_results_frame[OF that, of i] n pend by simp
      with n show ?thesis by blast
    qed
    show ?thesis
      using q skip by blast
  qed
  show ?thesis
    using sp fb before after row by blast
qed

section \<open>The claims about the batch classifier\<close>

text \<open>
  C4: when every call fails with a rate-limit error, \<open>screen_batch\<close> calls the
  service three times on the same batch, pauses 10 seconds after each failure, and
  returns the empty list; nothing is raised.  The run then leaves the table as the
  pre-flight checks left it: every paper sent to the service is still unresolved
  (not included, empty reason), and no row is written to the output.
\<close>

theorem rate_limit_exhaustion:
  assumes busy: "\<forall>n b. \<exists>msg. attempt cl n b = Inl msg \<and> rate_limited msg"
  shows "screen_batch cl b n = ([], n + 3, [Call b, Sleep 10, Call b, Sleep 10, Call b, Sleep 10]) \<and>
     table (relevancy_filter cl input) = fst (pre_flight (number_rows 0 input)) \<and>
     persisted (relevancy_filter cl input) = [] \<and>
     (\<forall>p\<in>set (snd (pre_flight (number_rows 0 input))).
        \<not> Included (table (relevancy_filter cl input) ! Temp_ID p) \<and>
        Rejection_Reason (table (relevancy_filter cl input) ! Temp_ID p) = '''')"
proof -
  have a: "screen_batch cl b n = ([], n + 3, [Call b, Sleep 10, Call b, Sleep 10, Call b, Sleep 10])"
    unfolding screen_batch_def attempts_rate_limited[OF busy] by (simp add: numeral_3_eq_3)
  have t: "table (relevancy_filter cl input) = fst (pre_flight (number_rows 0 input))"
  proof -
    let ?valid = "filter (\<lambda>p. fst (pre_flight_check p)) (number_rows 0 input)"
    obtain rm n evs where rb: "run_batches cl (batches_of ?valid) (Map.empty, 0, []) = (rm, n, evs)"
      by (cases "run_batches cl (batches_of ?valid) (Map.empty, 0, [])") auto
    with run_batches_rate_limited[OF busy, of "batches_of ?valid" Map.empty 0 "[]"]
    have "rm = Map.empty" by simp
    with rb show ?thesis
      by (simp add: relevancy_filter_def pre_flight_eq Let_def merge_row_empty)
  qed
  have p: "persisted (relevancy_filter cl input) = filter Included (table (relevancy_filter cl input))"
    by (simp add: relevancy_filter_def Let_def split: prod.splits)
  have "filter Included (map reject_row (number_rows 0 input)) = []"
    using numbered_reject_not_included by (simp add: filter_empty_conv)
  with p t have e: "persisted (relevancy_filter cl input) = []"
    by (simp add: pre_flight_eq)
  show ?thesis
    using a t e valid_row_unresolved[of _ input] by simp
qed


text \<open>
  C7: a paper that fails the pre-flight check is in no batch sent to the service;
  the pre-flight phase marks it as not included with the reason \<open>Auto-Reject:\<close>
  followed by the reason of the check, and this is its row at the end of the run
  whenever the service answers only about papers it was sent.
\<close>

theorem pre_flight_rejects_locally:
  assumes i: "i < length input" and bad: "pre_flight_check (input ! i) = (False, reason)"
  shows "(\<forall>b. Call b \<in> set (events (relevancy_filter cl input)) \<longrightarrow> i \<notin> fst ` set b) \<and>
     fst (pre_flight (number_rows 0 input)) ! i =
       (input ! i)\<lparr>Temp_ID := i, Included := False, Rejection_Reason := ''Auto-Reject: '' @ reason\<rparr> \<and>
     ((\<forall>m b ds d. attempt cl m b = Inr ds \<and> d \<in> set ds \<and> dec_ID d = Some i \<longrightarrow> i \<in> fst ` set b) \<longrightarrow>
        table (relevancy_filter cl input) ! i =
          (input ! i)\<lparr>Temp_ID := i, Included := False, Rejection_Reason := ''Auto-Reject: '' @ reason\<rparr>)"
proof -
  let ?r = "(input ! i)\<lparr>Temp_ID := i, Included := False, Rejection_Reason := ''Auto-Reject: '' @ reason\<rparr>"
  have calls: "i \<notin> fst ` set b" if "Call b \<in> set (events (relevancy_filter cl input))" for b
    using relevancy_filter_events[OF that] rejected_not_submitted[OF i bad] by blast
  have "pre_flight_check (number_rows 0 input ! i) = (False, reason)"
    using i bad by (simp add: number_rows_nth pre_flight_check_frame)
  then have "reject_row (number_rows 0 input ! i) =
      (number_rows 0 input ! i)\<lparr>Included := False, Rejection_Reason := ''Auto-Reject: '' @ reason\<rparr>"
    by (rule reject_row_invalid)
  then have phase1: "fst (pre_flight (number_rows 0 input)) ! i = ?r"
    using i by (simp add: pre_flight_eq number_rows_length number_rows_nth)
  have final: "table (relevancy_filter cl input) ! i = ?r"
    if wb: "\<forall>m b ds d. attempt cl m b = Inr ds \<and> d \<in> set ds \<and> dec_ID d = Some i \<longrightarrow> i \<in> fst ` set b"
  proof -
    have "answers (relevancy_filter cl input) (Some i) = None"
    proof (rule ccontr)
      assume "answers (relevancy_filter cl input) (Some i) \<noteq> None"
      then obtain d where "answers (relevancy_filter cl input) (Some i) = Some d"
        by auto
      from relevancy_filter_answers[OF this] obtain batch m ds where
        b: "set batch \<subseteq> {p \<in> set (number_rows 0 input). fst (pre_flight_check p)}"
        "attempt cl m (map to_mini batch) = Inr ds" "d \<in> set ds" "dec_ID d = Some i"
        by blast
      with wb have "i \<in> fst ` set (map to_mini batch)"
        by blast
      with rejected_not_submitted[OF i bad b(1)] show False
        by simp
    qed
    then have "merge_row (answers (relevancy_filter cl input)) ?r = ?r"
      by (simp add: merge_row_def)
    with phase1 i show ?thesis
      by (simp add: relevancy_filter_table pre_flight_eq number_rows_length)
  qed
  show ?thesis
    using calls phase1 final by blast
qed


theorem task_exceptions_become_results_witness:
  "analyze_single_paper (world_no_key\<lparr>copy2 := Some ''No space left on device''\<rparr>) 4 ''a.pdf'' =
     Some (4, ''Error'', ''No space left on device'') \<and>
   analyze_single_paper (world_no_key\<lparr>upload := Inl ''503 UNAVAILABLE''\<rparr>) 4 ''a.pdf'' =
     Some (4, ''Error'', ''503 UNAVAILABLE'') \<and>
   analyze_single_paper
     (world_no_key\<lparr>files_get := (\<lambda>k. if k < 2 then Inr PROCESSING else Inl ''Connection reset'')\<rparr>)
     4 ''a.pdf'' = Some (4, ''Error'', ''Connection reset'') \<and>
   analyze_single_paper (world_no_key\<lparr>generate_content := Inl ''500 INTERNAL''\<rparr>) 4 ''a.pdf'' =
     Some (4, ''Error'', ''500 INTERNAL'') \<and>
   analyze_single_paper (example_world ''not json'') 4 ''a.pdf'' =
     Some (4, ''Error'', ''Expecting value: line 1 column 1 (char 0)'') \<and>
   analyze_single_paper (example_world ''[]'') 4 ''a.pdf'' =
     Some (4, ''Error'', ''list object has no attribute get'') \<and>
   merge_results (\<lambda>i f. example_world ''not json'') [(0, ''a.pdf'')] [example_row] =
     Some [example_row\<lparr>Method := ''Error''\<rparr>] \<and>
   wait_ready (\<lambda>k. if k < 7 then Inr PROCESSING else Inr ACTIVE) PROCESSING 0 = Some (Inr ACTIVE, 8) \<and>
   wait_ready (\<lambda>k. Inr PROCESSING) PROCESSING 0 = None"
proof -
  have ready: "wait_ready (files_get (example_world t)) PROCESSING 0 = Some (Inr ACTIVE, 3)" for t
    by (simp add: example_world_def wait_ready.simps)
  have c1: "analyze_single_paper (world_no_key\<lparr>copy2 := Some ''No space left on device''\<rparr>) 4 ''a.pdf'' =
     Some (4, ''Error'', ''No space left on device'')"
    using task_exceptions_become_results
      [where w = "world_no_key\<lparr>copy2 := Some ''No space left on device''\<rparr>"
        and e = "''No space left on device''" and i = 4 and f = "''a.pdf''"]
    by simp
  have c2: "analyze_single_paper (world_no_key\<lparr>upload := Inl ''503 UNAVAILABLE''\<rparr>) 4 ''a.pdf'' =
     Some (4, ''Error'', ''503 UNAVAILABLE'')"
    using task_exceptions_become_results
      [where w = "world_no_key\<lparr>upload := Inl ''503 UNAVAILABLE''\<rparr>"
        and e = "''503 UNAVAILABLE''" and i = 4 and f = "''a.pdf''"]
    by (simp add: world_no_key_def example_world_def)
  have c3: "analyze_single_paper
     (world_no_key\<lparr>files_get := (\<lambda>k. if k < 2 then Inr PROCESSING else Inl ''Connection reset'')\<rparr>)
     4 ''a.pdf'' = Some (4, ''Error'', ''Connection reset'')"
    using task_exceptions_become_results
      [where w = "world_no_key\<lparr>files_get := (\<lambda>k. if k < 2 then Inr PROCESSING else Inl ''Connection reset'')\<rparr>"
        and e = "''Connection reset''" and i = 4 and f = "''a.pdf''" and n = 2]
    by (simp add: world_no_key_def example_world_def)
  have c4: "analyze_single_paper (world_no_key\<lparr>generate_content := Inl ''500 INTERNAL''\<rparr>) 4 ''a.pdf'' =
     Some (4, ''Error'', ''500 INTERNAL'')"
    using task_exceptions_become_results
      [where w = "world_no_key\<lparr>generate_content := Inl ''500 INTERNAL''\<rparr>"
        and e = "''500 INTERNAL''" and i = 4 and f = "''a.pdf''" and st = PROCESSING and k = 3]
      ready [of "''```json {} ```''"]
    by (simp add: world_no_key_def example_world_def)
  have l5: "json_loads (example_world ''not json'')
      (strip (replace (replace ''not json'' ''```json'' '''') ''```'' '''')) =
      Inl ''Expecting value: line 1 column 1 (char 0)''"
    by code_simp
  have c5: "analyze_single_paper (example_world ''not json'') 4 ''a.pdf'' =
     Some (4, ''Error'', ''Expecting value: line 1 column 1 (char 0)'')"
    using task_exceptions_become_results
      [where w = "example_world ''not json''" and reply = "''not json''"
        and e = "''Expecting value: line 1 column 1 (char 0)''" and i = 4 and f = "''a.pdf''"
        and st = PROCESSING and k = 3]
      ready [of "''not json''"] l5
    by (simp add: example_world_def)
  have l6: "json_loads (example_world ''[]'')
      (strip (replace (replace ''[]'' ''```json'' '''') ''```'' '''')) =
      Inr (JOther ''list object has no attribute get'')"
    by code_simp
  have c6: "analyze_single_paper (example_world ''[]'') 4 ''a.pdf'' =
     Some (4, ''Error'', ''list object has no attribute get'')"
    using task_exceptions_become_results
      [where w = "example_world ''[]''" and reply = "''[]''"
        and e = "''list object has no attribute get''" and i = 4 and f = "''a.pdf''"
        and st = PROCESSING and k = 3]
      ready [of "''[]''"] l6
    by (simp add: example_world_def)
  have a7: "analyze_single_paper (example_world ''not json'') 0 ''a.pdf'' =
     Some (0, ''Error'', ''Expecting value: line 1 column 1 (char 0)'')"
    by code_simp
  have c7: "merge_results (\<lambda>i f. example_world ''not json'') [(0, ''a.pdf'')] [example_row] =
     Some [example_row\<lparr>Method := ''Error''\<rparr>]"
    using task_exceptions_become_results
      [where env = "\<lambda>i f. example_world ''not json''" and i = 0 and f = "''a.pdf''"
        and e = "''Expecting value: line 1 column 1 (char 0)''" and ts = "[]" and df = "[example_row]"]
      a7
    by (simp add: set_method_def)
  have c8: "wait_ready (\<lambda>k. if k < 7 then Inr PROCESSING else Inr ACTIVE) PROCESSING 0 =
      Some (Inr ACTIVE, 8)"
    using task_exceptions_become_results
      [where get = "\<lambda>k. if k < 7 then Inr PROCESSING else Inr ACTIVE" and n = 7]
    by simp
  have c9: "wait_ready (\<lambda>k. Inr PROCESSING) PROCESSING 0 = None"
    using task_exceptions_become_results [where get = "\<lambda>k. Inr PROCESSING"]
    by simp
  show ?thesis
    using c1 c2 c3 c4 c5 c6 c7 c8 c9 by simp
qed



theorem best_match_first_maximum_witness:
  "pending example_row \<and>
   find_best_local_match example_ratio (Full_Citation example_row) (local_pdfs_of example_listing) =
     (Some ''Smith_J_2020_Deep_Learning.pdf'', 100) \<and>
   (0, ''Smith_J_2020_Deep_Learning.pdf'') \<in>
     set (match_rows example_ratio (local_pdfs_of example_listing) 0 [example_row]) \<and>
   pending (example_row\<lparr>Full_Citation := ''Zz Totally Unrelated''\<rparr>) \<and>
   find_best_local_match example_ratio ''Zz Totally Unrelated'' (local_pdfs_of example_listing) =
     (Some ''unrelated.pdf'', 10) \<and>
   0 \<notin> fst ` set (match_rows example_ratio (local_pdfs_of example_listing) 0
     [example_row\<lparr>Full_Citation := ''Zz Totally Unrelated''\<rparr>])"
proof -
  have files: "local_pdfs_of example_listing \<noteq> []"
    by code_simp
  have nonneg: "\<forall>f\<in>set (local_pdfs_of example_listing).
      0 \<le> example_ratio (normalize_text (PyStr (Full_Citation (df ! 0)))) (normalize_text (PyStr f))" for df
    by (simp add: example_ratio_def)
  have p1: "pending ([example_row] ! 0)"
    by code_simp
  have f1: "find_best_local_match example_ratio (Full_Citation ([example_row] ! 0))
      (local_pdfs_of example_listing) = (Some ''Smith_J_2020_Deep_Learning.pdf'', 100)"
    by code_simp
  have i1: "0 < length [example_row]"
    by simp
  from best_match_first_maximum
    [where local_pdfs = "local_pdfs_of example_listing" and ratio = example_ratio
      and df = "[example_row]" and i = 0, OF files nonneg] i1 p1
  obtain x where
    x1: "find_best_local_match example_ratio (Full_Citation ([example_row] ! 0))
        (local_pdfs_of example_listing) =
      (Some x, example_ratio (normalize_text (PyStr (Full_Citation ([example_row] ! 0))))
        (normalize_text (PyStr x)))"
    and q1: "(0, x) \<in> set (match_rows example_ratio (local_pdfs_of example_listing) 0 [example_row]) \<longleftrightarrow>
      85 < example_ratio (normalize_text (PyStr (Full_Citation ([example_row] ! 0))))
        (normalize_text (PyStr x))"
    by auto
  have "(Some x, example_ratio (normalize_text (PyStr (Full_Citation ([example_row] ! 0))))
        (normalize_text (PyStr x))) = (Some ''Smith_J_2020_Deep_Learning.pdf'', 100)"
    using x1 [symmetric] f1 by (rule trans)
  then have e1: "x = ''Smith_J_2020_Deep_Learning.pdf'' \<and>
      example_ratio (normalize_text (PyStr (Full_Citation ([example_row] ! 0))))
        (normalize_text (PyStr x)) = 100"
    unfolding prod.inject option.inject .
  from q1 e1 [THEN conjunct2] have "(0, x) \<in>
     set (match_rows example_ratio (local_pdfs_of example_listing) 0 [example_row])"
    by simp
  with e1 [THEN conjunct1] have a: "(0, ''Smith_J_2020_Deep_Learning.pdf'') \<in>
     set (match_rows example_ratio (local_pdfs_of example_listing) 0 [example_row])"
    by simp
  let ?r = "example_row\<lparr>Full_Citation := ''Zz Totally Unrelated''\<rparr>"
  have p2: "pending ([?r] ! 0)"
    by code_simp
  have f2: "find_best_local_match example_ratio (Full_Citation ([?r] ! 0))
      (local_pdfs_of example_listing) = (Some ''unrelated.pdf'', 10)"
    by code_simp
  have i2: "0 < length [?r]"
    by simp
  from best_match_first_maximum
    [where local_pdfs = "local_pdfs_of example_listing" and ratio = example_ratio
      and df = "[?r]" and i = 0, OF files nonneg] i2 p2
  obtain y where
    y1: "find_best_local_match example_ratio (Full_Citation ([?r] ! 0))
        (local_pdfs_of example_listing) =
      (Some y, example_ratio (normalize_text (PyStr (Full_Citation ([?r] ! 0))))
        (normalize_text (PyStr y)))"
    and q2: "\<not> 85 < example_ratio (normalize_text (PyStr (Full_Citation ([?r] ! 0))))
        (normalize_text (PyStr y)) \<longrightarrow>
      0 \<notin> fst ` set (match_rows example_ratio (local_pdfs_of example_listing) 0 [?r])"
    by auto
  have "(Some y, example_ratio (normalize_text (PyStr (Full_Citation ([?r] ! 0))))
        (normalize_text (PyStr y))) = (Some ''unrelated.pdf'', 10)"
    using y1 [symmetric] f2 by (rule trans)
  then have "Some y = Some ''unrelated.pdf'' \<and>
      example_ratio (normalize_text (PyStr (Full_Citation ([?r] ! 0))))
        (normalize_text (PyStr y)) = 10"
    unfolding prod.inject .
  then have "example_ratio (normalize_text (PyStr (Full_Citation ([?r] ! 0))))
        (normalize_text (PyStr y)) = 10"
    by (rule conjunct2)
  with q2 have b: "0 \<notin> fst ` set (match_rows example_ratio (local_pdfs_of example_listing) 0 [?r])"
    by simp
  show ?thesis
    using p1 f1 a p2 f2 b by simp
qed

section \<open>The claim about the rows of the table\<close>

text \<open>
  C2, as the code has it: the batch classifier keeps every row in the table it
  works on, in order, and changes only the identifier it assigns and the columns
  \<open>Included\<close> and \<open>Rejection_Reason\<close>; the file it writes at the end holds the rows
  of that table whose \<open>Included\<close> is true, and no other row.  The concurrent item
  analyzer saves a table with the rows it loaded, in order, changed in the column
  \<open>Method\<close> at most.
\<close>

theorem rows_kept_output_filtered:
  "persisted (relevancy_filter cl input) = filter Included (table (relevancy_filter cl input)) \<and>
   map Temp_ID (table (relevancy_filter cl input)) = [0..<length input] \<and>
   map (\<lambda>p. p\<lparr>Temp_ID := 0, Included := False, Rejection_Reason := ''''\<rparr>)
       (table (relevancy_filter cl input)) =
     map (\<lambda>p. p\<lparr>Temp_ID := 0, Included := False, Rejection_Reason := ''''\<rparr>) input \<and>
   (run_fast_pipeline ratio env fs = Some out \<and> loaded_table fs = Some df \<longrightarrow>
      (\<exists>df'. saved out = Some df' \<and>
         map (\<lambda>r. r\<lparr>Method := ''''\<rparr>) df' = map (\<lambda>r. r\<lparr>Method := ''''\<rparr>) df))"
proof -
  have p: "persisted (relevancy_filter cl input) = filter Included (table (relevancy_filter cl input))"
    by (simp add: relevancy_filter_def Let_def split: prod.splits)
  show ?thesis
    using p table_ids table_frame run_frame by blast
qed

theorem rows_kept_output_filtered_witness:
  "map Temp_ID (persisted (relevancy_filter partial_client example_papers)) = [3] \<and>
   map Temp_ID (table (relevancy_filter partial_client example_papers)) = [0, 1, 2, 3] \<and>
   map Title (table (relevancy_filter partial_client example_papers)) = map Title example_papers \<and>
   run_fast_pipeline example_ratio (\<lambda>i f. world_survey) example_files =
     Some \<lparr>saved = Some [example_row\<lparr>Method := ''Survey''\<rparr>],
           queued = [(0, ''Smith_J_2020_Deep_Learning.pdf'')]\<rparr> \<and>
   map (\<lambda>r. r\<lparr>Method := ''''\<rparr>) [example_row\<lparr>Method := ''Survey''\<rparr>] =
     map (\<lambda>r. r\<lparr>Method := ''''\<rparr>) [example_row]"
proof -
  note T = rows_kept_output_filtered
    [where cl = partial_client and input = example_papers and ratio = example_ratio
      and env = "\<lambda>i f. world_survey" and fs = example_files
      and out = "\<lparr>saved = Some [example_row\<lparr>Method := ''Survey''\<rparr>],
           queued = [(0, ''Smith_J_2020_Deep_Learning.pdf'')]\<rparr>"
      and df = "[example_row]"]
  have t: "map (\<lambda>p. (Included p, Title p)) (table (relevancy_filter partial_client example_papers)) =
      [(False, ''First''), (False, ''Second''), (False, ''Third''), (True, ''Fourth'')]"
    by code_simp
  have r: "run_fast_pipeline example_ratio (\<lambda>i f. world_survey) example_files =
     Some \<lparr>saved = Some [example_row\<lparr>Method := ''Survey''\<rparr>],
           queued = [(0, ''Smith_J_2020_Deep_Learning.pdf'')]\<rparr>"
    by code_simp
  have l: "loaded_table example_files = Some [example_row]"
    by (simp add: loaded_table_def example_files_def)
  have ids: "map Temp_ID (table (relevancy_filter partial_client example_papers)) = [0, 1, 2, 3]"
  proof -
    have "[0..<length example_papers] = [0, 1, 2, 3]"
      by code_simp
    with T show ?thesis by simp
  qed
  have inc: "map Included (table (relevancy_filter partial_client example_papers)) =
      [False, False, False, True]"
    using arg_cong [OF t, of "map fst"] by (simp add: comp_def)
  have tit: "map Title (table (relevancy_filter partial_client example_papers)) = map Title example_papers"
  proof -
    have "map Title example_papers = [''First'', ''Second'', ''Third'', ''Fourth'']"
      by code_simp
    with arg_cong [OF t, of "map snd"] show ?thesis by (simp add: comp_def)
  qed
  have pers: "map Temp_ID (persisted (relevancy_filter partial_client example_papers)) = [3]"
  proof -
    from T have "persisted (relevancy_filter partial_client example_papers) =
        filter Included (table (relevancy_filter partial_client example_papers))"
      by simp
    moreover obtain a b c d where abcd: "table (relevancy_filter partial_client example_papers) = [a, b, c, d]"
      using ids by (auto simp: map_eq_Cons_conv)
    ultimately show ?thesis
      using ids inc by simp
  qed
  from T r l have "map (\<lambda>r. r\<lparr>Method := ''''\<rparr>) [example_row\<lparr>Method := ''Survey''\<rparr>] =
     map (\<lambda>r. r\<lparr>Method := ''''\<rparr>) [example_row]"
    by simp
  with pers ids tit r show ?thesis
    by simp
qed

text \<open>
  C2, as the specification states it, fails for the batch classifier: of the four
  papers of the example only the included one is written to the output, and with a
  service that is always busy no row is written at all.
\<close>

theorem output_drops_rows_counterexample:
  "length example_papers = 4 \<and>
   length (persisted (relevancy_filter partial_client example_papers)) = 1 \<and>
   persisted (relevancy_filter busy_client example_papers) = []"
  by code_simp

theorem rate_limit_exhaustion_witness:
  "attempt busy_client 0 [to_mini (example_paper ''First'' long_abstract)] =
     Inl ''429 RESOURCE_EXHAUSTED. Quota exceeded.'' \<and>
   rate_limited ''429 RESOURCE_EXHAUSTED. Quota exceeded.'' \<and>
   screen_batch busy_client [to_mini (example_paper ''First'' long_abstract)] 0 =
     ([], 3, [Call [to_mini (example_paper ''First'' long_abstract)], Sleep 10,
              Call [to_mini (example_paper ''First'' long_abstract)], Sleep 10,
              Call [to_mini (example_paper ''First'' long_abstract)], Sleep 10]) \<and>
   table (relevancy_filter busy_client example_papers) =
     fst (pre_flight (number_rows 0 example_papers)) \<and>
   persisted (relevancy_filter busy_client example_papers) = [] \<and>
   Rejection_Reason (table (relevancy_filter busy_client example_papers) ! 2) = ''''"
proof -
  have rl: "rate_limited ''429 RESOURCE_EXHAUSTED. Quota exceeded.''"
    by code_simp
  have a: "attempt busy_client n b = Inl ''429 RESOURCE_EXHAUSTED. Quota exceeded.''" for n b
    by (simp add: attempt_def busy_client_def)
  have busy: "\<forall>n b. \<exists>msg. attempt busy_client n b = Inl msg \<and> rate_limited msg"
    using a rl by blast
  note T = rate_limit_exhaustion
    [OF busy, of "[to_mini (example_paper ''First'' long_abstract)]" 0 example_papers]
  have v: "number_rows 0 example_papers ! 2 \<in> set (snd (pre_flight (number_rows 0 example_papers)))"
    by code_simp
  have id: "Temp_ID (number_rows 0 example_papers ! 2) = 2"
    by code_simp
  from T v have "Rejection_Reason (table (relevancy_filter busy_client example_papers) !
      Temp_ID (number_rows 0 example_papers ! 2)) = ''''"
    by blast
  with id have u: "Rejection_Reason (table (relevancy_filter busy_client example_papers) ! 2) = ''''"
    by simp
  show ?thesis
    using T a rl u by simp
qed



theorem pre_flight_rejects_locally_witness:
  "pre_flight_check (example_papers ! 1) = (False, ''Abstract too short'') \<and>
   events (relevancy_filter partial_client example_papers) =
     [Call [(0, ''First'', long_abstract), (2, ''Third'', long_abstract),
            (3, ''Fourth'', long_abstract)], Sleep 1] \<and>
   (1::nat) \<notin> fst ` set [(0, ''First'', long_abstract), (2, ''Third'', long_abstract),
            (3, ''Fourth'', long_abstract)] \<and>
   table (relevancy_filter partial_client example_papers) ! 1 =
     (example_papers ! 1)\<lparr>Temp_ID := 1, Included := False,
        Rejection_Reason := ''Auto-Reject: Abstract too short''\<rparr>"
proof -
  have i: "1 < length example_papers"
    by code_simp
  have bad: "pre_flight_check (example_papers ! 1) = (False, ''Abstract too short'')"
    by code_simp
  note T = pre_flight_rejects_locally [OF i bad, of partial_client]
  have ev: "events (relevancy_filter partial_client example_papers) =
     [Call [(0, ''First'', long_abstract), (2, ''Third'', long_abstract),
            (3, ''Fourth'', long_abstract)], Sleep 1]"
    by code_simp
  from T ev have c: "(1::nat) \<notin> fst ` set [(0, ''First'', long_abstract), (2, ''Third'', long_abstract),
            (3, ''Fourth'', long_abstract)]"
    by simp
  have ids: "dec_ID d \<noteq> Some 1" if "attempt partial_client m b = Inr ds" "d \<in> set ds" for m b ds d
    using that by (auto simp: attempt_def partial_client_def split: if_splits)
  then have wb: "\<forall>m b ds d. attempt partial_client m b = Inr ds \<and> d \<in> set ds \<and> dec_ID d = Some 1 \<longrightarrow>
      1 \<in> fst ` set b"
    by blast
  from mp [OF T [THEN conjunct2, THEN conjunct2] wb]
  have t: "table (relevancy_filter partial_client example_papers) ! 1 =
     (example_papers ! 1)\<lparr>Temp_ID := 1, Included := False,
        Rejection_Reason := ''Auto-Reject: Abstract too short''\<rparr>"
    by simp
  show ?thesis
    using bad ev c t by simp
qed


end
